theory Spec2Isabelle
  imports Main "HOL-Library.AList"
begin

section \<open>Values, errors and the platform\<close>

text \<open>
  JavaScript values as far as the program handles them: what \<open>JSON.parse\<close> can return,
  and \<open>undefined\<close>, which a property read of a missing field yields. Numbers are the
  integers (the finite doubles without a fraction); \<open>NaN\<close> and the infinities are not
  modelled. An object is the list of its own properties in insertion order; a list that
  names a property twice stands for no object.
\<close>

datatype jsval =
    JUndefined
  | JNull
  | JBool bool
  | JNum int
  | JStr string
  | JArr "jsval list"
  | JObj "(string \<times> jsval) list"

text \<open>A thrown value: the error's class and its message.\<close>

datatype error = Error string | TypeError string | SyntaxError string

text \<open>The text \<open>`${error}`\<close> interpolates.\<close>

fun errorToString :: "error \<Rightarrow> string" where
  "errorToString (Error m) = ''Error: '' @ m"
| "errorToString (TypeError m) = ''TypeError: '' @ m"
| "errorToString (SyntaxError m) = ''SyntaxError: '' @ m"

text \<open>The truthiness test of \<open>if (v)\<close>.\<close>

fun truthy :: "jsval \<Rightarrow> bool" where
  "truthy JUndefined = False"
| "truthy JNull = False"
| "truthy (JBool b) = b"
| "truthy (JNum n) = (n \<noteq> 0)"
| "truthy (JStr s) = (s \<noteq> [])"
| "truthy (JArr xs) = True"
| "truthy (JObj ps) = True"

text \<open>
  \<open>JSON.stringify\<close> followed by \<open>JSON.parse\<close>: inside an array \<open>undefined\<close> is
  written as \<open>null\<close>, a property whose value is \<open>undefined\<close> is left out, every
  other value comes back as it was.
\<close>

fun jsonify :: "jsval \<Rightarrow> jsval" where
  "jsonify (JArr xs) =
     JArr (map (\<lambda>x. if x = JUndefined then JNull else jsonify x) xs)"
| "jsonify (JObj ps) =
     JObj (map (\<lambda>p. (fst p, jsonify (snd p))) (filter (\<lambda>p. snd p \<noteq> JUndefined) ps))"
| "jsonify v = v"

text \<open>
  The text of a file: either the JSON text of a value (whatever its layout), or text
  that \<open>JSON.parse\<close> rejects.
\<close>

datatype content = JsonText jsval | OtherText string

text \<open>
  \<open>JSON.stringify(data, null, 2)\<close>: for \<open>undefined\<close> it returns \<open>undefined\<close>
  instead of a text.
\<close>

definition JSON_stringify :: "jsval \<Rightarrow> content option" where
  "JSON_stringify data =
     (if data = JUndefined then None else Some (JsonText (jsonify data)))"

definition JSON_parse :: "content \<Rightarrow> error + jsval" where
  "JSON_parse data =
     (case data of
        JsonText v \<Rightarrow> Inr v
      | OtherText s \<Rightarrow> Inl (SyntaxError ''Unexpected token in JSON''))"

datatype LogLevel = DEBUG | INFO | WARN | ERROR

record fileEntry =
  content :: content
  mtimeMs :: int
  readable :: bool

text \<open>
  Everything a module can reach: the files, the paths at which the file system rejects
  a write or the creation of a directory, the clock (\<open>Date.now()\<close> and
  \<open>performance.now()\<close>, in milliseconds), the process environment, the logger, the
  standard output, and the state \<open>ext\<close> of whatever lies outside the process (the
  remote services, the module objects' private fields). \<open>fetches\<close> counts the calls of
  request functions made by \<open>apiRequest\<close>; the program does not read it.

  The logger is a sink: \<open>logs\<close> holds every call at info, warn and error level with its
  message, as passed, before the sink's level filter and colouring. Calls at debug level
  are not recorded.
\<close>

record 's sys =
  files :: "string \<rightharpoonup> fileEntry"
  writeDenied :: "string \<Rightarrow> bool"
  mkdirDenied :: "string \<Rightarrow> bool"
  nowMs :: int
  homedir :: string
  env :: "string \<rightharpoonup> string"
  logLevel :: jsval
  logs :: "(LogLevel \<times> string) list"
  stdout :: "string list"
  fetches :: nat
  ext :: 's

definition logger_info :: "string \<Rightarrow> 's sys \<Rightarrow> 's sys" where
  "logger_info message w = w\<lparr>logs := logs w @ [(INFO, message)]\<rparr>"

definition logger_warn :: "string \<Rightarrow> 's sys \<Rightarrow> 's sys" where
  "logger_warn message w = w\<lparr>logs := logs w @ [(WARN, message)]\<rparr>"

definition logger_error :: "string \<Rightarrow> 's sys \<Rightarrow> 's sys" where
  "logger_error message w = w\<lparr>logs := logs w @ [(ERROR, message)]\<rparr>"

definition logger_setLevel :: "jsval \<Rightarrow> 's sys \<Rightarrow> 's sys" where
  "logger_setLevel level w = w\<lparr>logLevel := level\<rparr>"

text \<open>Time passing between two calls.\<close>

definition elapse :: "int \<Rightarrow> 's sys \<Rightarrow> 's sys" where
  "elapse d w = w\<lparr>nowMs := nowMs w + d\<rparr>"

subsection \<open>The file system calls\<close>

text \<open>
  \<open>path.join\<close> of a directory and a name; segments \<open>.\<close> and \<open>..\<close> inside a name are
  not resolved.
\<close>

definition path_join :: "string \<Rightarrow> string \<Rightarrow> string" where
  "path_join dir base = dir @ ''/'' @ base"

definition fs_mkdir :: "string \<Rightarrow> 's sys \<Rightarrow> (error + unit) \<times> 's sys" where
  "fs_mkdir p w =
     (if mkdirDenied w p then (Inl (Error (''EACCES: permission denied, mkdir '' @ p)), w)
      else (Inr (), w))"

definition fs_stat :: "string \<Rightarrow> 's sys \<Rightarrow> error + int" where
  "fs_stat p w =
     (case files w p of
        None \<Rightarrow> Inl (Error (''ENOENT: no such file or directory, stat '' @ p))
      | Some f \<Rightarrow> Inr (mtimeMs f))"

definition fs_readFile :: "string \<Rightarrow> 's sys \<Rightarrow> error + content" where
  "fs_readFile p w =
     (case files w p of
        None \<Rightarrow> Inl (Error (''ENOENT: no such file or directory, open '' @ p))
      | Some f \<Rightarrow>
          if readable f then Inr (content f)
          else Inl (Error (''EACCES: permission denied, open '' @ p)))"

text \<open>
  \<open>fs.writeFile\<close>: a new file can be read back; an existing file keeps its permissions.
  Without a text to write (\<open>undefined\<close>) the call is rejected with a TypeError.
\<close>

definition fs_writeFile :: "string \<Rightarrow> content option \<Rightarrow> 's sys \<Rightarrow> (error + unit) \<times> 's sys" where
  "fs_writeFile p data w =
     (case data of
        None \<Rightarrow> (Inl (TypeError ''The data argument must be of type string''), w)
      | Some text \<Rightarrow>
          if writeDenied w p then (Inl (Error (''EACCES: permission denied, open '' @ p)), w)
          else (Inr (),
                w\<lparr>files := (files w)(p \<mapsto>
                     \<lparr>content = text, mtimeMs = nowMs w,
                      readable = (case files w p of None \<Rightarrow> True | Some f \<Rightarrow> readable f)\<rparr>)\<rparr>))"

section \<open>The cache (utils/cache.ts)\<close>

definition CACHE_DIR :: "'s sys \<Rightarrow> string" where
  "CACHE_DIR w = path_join (path_join (path_join (homedir w) ''.config'') ''welcome'') ''cache''"

definition cacheFile :: "'s sys \<Rightarrow> string \<Rightarrow> string" where
  "cacheFile w cacheName = path_join (CACHE_DIR w) (cacheName @ ''.json'')"

definition ensureCacheDir :: "'s sys \<Rightarrow> (error + unit) \<times> 's sys" where
  "ensureCacheDir w =
     (case fs_mkdir (CACHE_DIR w) w of
        (Inl e, w1) \<Rightarrow>
          (Inr (), logger_error (''Failed to create cache directory: '' @ errorToString e) w1)
      | (Inr u, w1) \<Rightarrow> (Inr (), w1))"

text \<open>
  \<open>getCache\<close>: the body of the \<open>try\<close> either returns the parsed value (\<open>Some\<close>) or
  falls through (\<open>None\<close>); whatever it throws is caught, and the function then returns
  \<open>null\<close>.
\<close>

definition getCache_try :: "string \<Rightarrow> int \<Rightarrow> 's sys \<Rightarrow> error + jsval option" where
  "getCache_try cacheName maxAge w =
     (case fs_stat (cacheFile w cacheName) w of
        Inl e \<Rightarrow> Inl e
      | Inr stats_mtimeMs \<Rightarrow>
          let fileAge = nowMs w - stats_mtimeMs in
          if fileAge < maxAge * 1000 then
            (case fs_readFile (cacheFile w cacheName) w of
               Inl e \<Rightarrow> Inl e
             | Inr data \<Rightarrow>
                 (case JSON_parse data of
                    Inl e \<Rightarrow> Inl e
                  | Inr v \<Rightarrow> Inr (Some v)))
          else Inr None)"

definition getCache :: "string \<Rightarrow> int \<Rightarrow> 's sys \<Rightarrow> error + jsval" where
  "getCache cacheName maxAge w =
     (case getCache_try cacheName maxAge w of
        Inl e \<Rightarrow> Inr JNull
      | Inr (Some v) \<Rightarrow> Inr v
      | Inr None \<Rightarrow> Inr JNull)"

definition saveCache :: "string \<Rightarrow> jsval \<Rightarrow> 's sys \<Rightarrow> (error + unit) \<times> 's sys" where
  "saveCache cacheName data w =
     (case ensureCacheDir w of
        (Inl e, w1) \<Rightarrow>
          (Inr (), logger_error (''Failed to cache data for '' @ cacheName @ '': '' @ errorToString e) w1)
      | (Inr u, w1) \<Rightarrow>
          (case fs_writeFile (cacheFile w1 cacheName) (JSON_stringify data) w1 of
             (Inl e, w2) \<Rightarrow>
               (Inr (), logger_error (''Failed to cache data for '' @ cacheName @ '': '' @ errorToString e) w2)
           | (Inr u', w2) \<Rightarrow> (Inr (), w2)))"

text \<open>
  \<open>apiRequest\<close>: the request function works on the outside state \<open>ext\<close>; each call of
  it is counted in \<open>fetches\<close>.
\<close>

definition apiRequest ::
  "string \<Rightarrow> int \<Rightarrow> ('s \<Rightarrow> (error + jsval) \<times> 's) \<Rightarrow> 's sys \<Rightarrow> (error + jsval) \<times> 's sys" where
  "apiRequest cacheName cacheAge requestFn w =
     (case getCache cacheName cacheAge w of
        Inl e \<Rightarrow> (Inl e, w)
      | Inr cachedData \<Rightarrow>
          if truthy cachedData then (Inr cachedData, w)
          else
            (case requestFn (ext w) of
               (r, s') \<Rightarrow>
                 let w1 = w\<lparr>ext := s', fetches := Suc (fetches w)\<rparr> in
                 (case r of
                    Inl e \<Rightarrow>
                      (Inl e, logger_error (''API request failed for '' @ cacheName @ '': '' @ errorToString e) w1)
                  | Inr response \<Rightarrow>
                      (case saveCache cacheName response w1 of
                         (Inl e, w2) \<Rightarrow>
                           (Inl e, logger_error (''API request failed for '' @ cacheName @ '': '' @ errorToString e) w2)
                       | (Inr u, w2) \<Rightarrow> (Inr response, w2)))))"

text \<open>
  A cache entry is live when its file exists and is younger than the maximal age.
\<close>

definition liveEntry :: "string \<Rightarrow> int \<Rightarrow> 's sys \<Rightarrow> bool" where
  "liveEntry cacheName maxAge w =
     (case files w (cacheFile w cacheName) of
        None \<Rightarrow> False
      | Some f \<Rightarrow> nowMs w - mtimeMs f < maxAge * 1000)"

text \<open>
  A value is JSON-serializable when writing it as JSON and parsing the text gives it
  back: it is not \<open>undefined\<close> and holds no \<open>undefined\<close>.
\<close>

definition serializable :: "jsval \<Rightarrow> bool" where
  "serializable v = (v \<noteq> JUndefined \<and> jsonify v = v)"

section \<open>The module registry and the orchestrator (modules/base.ts)\<close>

text \<open>
  A property read \<open>v.k\<close>. On \<open>undefined\<close> and \<open>null\<close> it throws; on an object it
  yields the property's value, or \<open>undefined\<close> without such a property. On a number, a
  boolean, a string or an array it yields \<open>undefined\<close> here: the program reads the
  properties \<open>enabledModules\<close>, \<open>display\<close>, \<open>logLevel\<close>, \<open>system\<close> and the
  \<open>show...\<close> switches, which none of those values has.
\<close>

fun getProp :: "jsval \<Rightarrow> string \<Rightarrow> error + jsval" where
  "getProp JUndefined k =
     Inl (TypeError (''Cannot read properties of undefined (reading '' @ k @ '')''))"
| "getProp JNull k =
     Inl (TypeError (''Cannot read properties of null (reading '' @ k @ '')''))"
| "getProp (JObj ps) k = Inr (case map_of ps k of None \<Rightarrow> JUndefined | Some v \<Rightarrow> v)"
| "getProp v k = Inr JUndefined"

text \<open>
  A module: its name and its two asynchronous methods, which work on everything a module
  can reach and either return or throw. (The optional \<open>cleanup\<close> is never called.)
\<close>

record 's WelcomeModule =
  name :: string
  setup_method :: "jsval \<Rightarrow> 's sys \<Rightarrow> (error + unit) \<times> 's sys"
  display_method :: "jsval \<Rightarrow> 's sys \<Rightarrow> (error + string) \<times> 's sys"

text \<open>The registry: a \<open>Map\<close> from names to modules, in insertion order.\<close>

record 's ModuleRegistry =
  modules :: "(string \<times> 's WelcomeModule) list"

definition emptyRegistry :: "'s ModuleRegistry" where
  "emptyRegistry = \<lparr>modules = []\<rparr>"

definition register :: "'s WelcomeModule \<Rightarrow> 's ModuleRegistry \<Rightarrow> 's ModuleRegistry" where
  "register m reg = reg\<lparr>modules := AList.update (name m) m (modules reg)\<rparr>"

definition getModule :: "'s ModuleRegistry \<Rightarrow> string \<Rightarrow> 's WelcomeModule option" where
  "getModule reg n = map_of (modules reg) n"

definition getAllModules :: "'s ModuleRegistry \<Rightarrow> 's WelcomeModule list" where
  "getAllModules reg = map snd (modules reg)"

text \<open>\<open>this.modules.get(name)\<close> for an arbitrary value as the key: the keys are strings.\<close>

definition modules_get :: "'s ModuleRegistry \<Rightarrow> jsval \<Rightarrow> 's WelcomeModule option" where
  "modules_get reg key = (case key of JStr n \<Rightarrow> map_of (modules reg) n | _ \<Rightarrow> None)"

text \<open>\<open>.filter(module => module !== undefined)\<close>.\<close>

fun filterDefined :: "'a option list \<Rightarrow> 'a list" where
  "filterDefined [] = []"
| "filterDefined (None # xs) = filterDefined xs"
| "filterDefined (Some x # xs) = x # filterDefined xs"

text \<open>
  \<open>getEnabledModules\<close>: \<open>config.enabledModules.map(...)\<close> throws when
  \<open>enabledModules\<close> is not an array.
\<close>

definition getEnabledModules :: "'s ModuleRegistry \<Rightarrow> jsval \<Rightarrow> error + 's WelcomeModule list" where
  "getEnabledModules reg config =
     (case getProp config ''enabledModules'' of
        Inl e \<Rightarrow> Inl e
      | Inr (JArr names) \<Rightarrow> Inr (filterDefined (map (modules_get reg) names))
      | Inr JUndefined \<Rightarrow> Inl (TypeError ''Cannot read properties of undefined (reading map)'')
      | Inr JNull \<Rightarrow> Inl (TypeError ''Cannot read properties of null (reading map)'')
      | Inr v \<Rightarrow> Inl (TypeError ''config.enabledModules.map is not a function''))"

subsection \<open>Timers (utils/performance.ts)\<close>

text \<open>
  The state of the orchestrator: the system, the timers and, for the theorems, the
  sequence of calls of module methods made so far. A module's methods work on the
  system only: no module of the program starts or ends a timer.
\<close>

datatype call = SetupCall string | DisplayCall string

record 's world =
  sys :: "'s sys"
  timers :: "string \<rightharpoonup> int"
  calls :: "call list"

definition startTimer :: "string \<Rightarrow> 's world \<Rightarrow> 's world" where
  "startTimer n w = w\<lparr>timers := (timers w)(n \<mapsto> nowMs (sys w))\<rparr>"

text \<open>
  \<open>endTimer\<close> returns the duration, here in milliseconds; the source rounds it to
  seconds with three decimals, and the callers only write it to the debug log.
\<close>

definition endTimer :: "string \<Rightarrow> 's world \<Rightarrow> (error + int) \<times> 's world" where
  "endTimer n w =
     (case timers w n of
        None \<Rightarrow> (Inl (Error (''Timer '' @ [CHR 0x22] @ n @ [CHR 0x22] @ '' was not started'')), w)
      | Some startTime \<Rightarrow>
          let endTime = nowMs (sys w); durationMs = endTime - startTime in
          (Inr durationMs, w\<lparr>timers := (timers w)(n := None)\<rparr>))"

subsection \<open>setupModules and displayWelcome\<close>

text \<open>One turn of the loop of \<open>setupModules\<close>: the \<open>try\<close> and its \<open>catch\<close>.\<close>

definition setupModules_step :: "jsval \<Rightarrow> 's WelcomeModule \<Rightarrow> 's world \<Rightarrow> 's world" where
  "setupModules_step config m w =
     (let w1 = startTimer (''setup_'' @ name m) w in
      case setup_method m config (sys w1) of
        (r, s') \<Rightarrow>
          let w2 = w1\<lparr>sys := s', calls := calls w1 @ [SetupCall (name m)]\<rparr> in
          (case r of
             Inl e \<Rightarrow>
               w2\<lparr>sys := logger_error (''Failed to setup module '' @ name m @ '': '' @ errorToString e) (sys w2)\<rparr>
           | Inr u \<Rightarrow>
               (case endTimer (''setup_'' @ name m) w2 of
                  (Inl e, w3) \<Rightarrow>
                    w3\<lparr>sys := logger_error (''Failed to setup module '' @ name m @ '': '' @ errorToString e) (sys w3)\<rparr>
                | (Inr setupTime, w3) \<Rightarrow> w3)))"

fun setupModules_loop :: "jsval \<Rightarrow> 's WelcomeModule list \<Rightarrow> 's world \<Rightarrow> 's world" where
  "setupModules_loop config [] w = w"
| "setupModules_loop config (m # ms) w = setupModules_loop config ms (setupModules_step config m w)"

text \<open>
  \<open>setupModules\<close> and \<open>displayWelcome\<close> read the singleton registry; here it is their
  first argument.
\<close>

definition setupModules :: "'s ModuleRegistry \<Rightarrow> jsval \<Rightarrow> 's world \<Rightarrow> (error + unit) \<times> 's world" where
  "setupModules reg config w =
     (case getEnabledModules reg config of
        Inl e \<Rightarrow> (Inl e, w)
      | Inr enabledModules \<Rightarrow> (Inr (), setupModules_loop config enabledModules w))"

text \<open>\<open>xs.join(sep)\<close>.\<close>

fun join :: "string \<Rightarrow> string list \<Rightarrow> string" where
  "join sep [] = []"
| "join sep [x] = x"
| "join sep (x # y # ys) = x @ sep @ join sep (y # ys)"

definition newline :: string where
  "newline = [CHR 0x0A]"

text \<open>
  One turn of the loop of \<open>displayWelcome\<close>, on the output collected so far. The
  output is pushed after \<open>endTimer\<close> has returned, and only when it is not empty.
\<close>

definition displayWelcome_step ::
  "jsval \<Rightarrow> 's WelcomeModule \<Rightarrow> string list \<times> 's world \<Rightarrow> string list \<times> 's world" where
  "displayWelcome_step config m ow =
     (case ow of
        (output, w) \<Rightarrow>
          let w1 = startTimer (''display_'' @ name m) w in
          (case display_method m config (sys w1) of
             (r, s') \<Rightarrow>
               let w2 = w1\<lparr>sys := s', calls := calls w1 @ [DisplayCall (name m)]\<rparr> in
               (case r of
                  Inl e \<Rightarrow>
                    (output,
                     w2\<lparr>sys := logger_error (''Failed to display module '' @ name m @ '': '' @ errorToString e) (sys w2)\<rparr>)
                | Inr moduleOutput \<Rightarrow>
                    (case endTimer (''display_'' @ name m) w2 of
                       (Inl e, w3) \<Rightarrow>
                         (output,
                          w3\<lparr>sys := logger_error (''Failed to display module '' @ name m @ '': '' @ errorToString e) (sys w3)\<rparr>)
                     | (Inr displayTime, w3) \<Rightarrow>
                         (if moduleOutput \<noteq> [] then output @ [moduleOutput] else output, w3)))))"

fun displayWelcome_loop ::
  "jsval \<Rightarrow> 's WelcomeModule list \<Rightarrow> string list \<times> 's world \<Rightarrow> string list \<times> 's world" where
  "displayWelcome_loop config [] ow = ow"
| "displayWelcome_loop config (m # ms) ow =
     displayWelcome_loop config ms (displayWelcome_step config m ow)"

definition displayWelcome :: "'s ModuleRegistry \<Rightarrow> jsval \<Rightarrow> 's world \<Rightarrow> (error + string) \<times> 's world" where
  "displayWelcome reg config w =
     (case getEnabledModules reg config of
        Inl e \<Rightarrow> (Inl e, w)
      | Inr enabledModules \<Rightarrow>
          let output = [[]];
              w1 = startTimer ''display_welcome'' w in
          (case displayWelcome_loop config enabledModules (output, w1) of
             (output1, w2) \<Rightarrow>
               let output2 = output1 @ [[]] in
               (case endTimer ''display_welcome'' w2 of
                  (Inl e, w3) \<Rightarrow> (Inl e, w3)
                | (Inr totalTime, w3) \<Rightarrow> (Inr (join newline output2), w3))))"

text \<open>
  The fragments a display pass over the modules \<open>ms\<close> collects, told from the modules
  alone: each module's display runs on the system the earlier ones left; a display that
  throws is logged and gives nothing, an empty output gives nothing, every other output
  is one fragment.
\<close>

fun collectedFragments :: "jsval \<Rightarrow> 's WelcomeModule list \<Rightarrow> 's sys \<Rightarrow> string list" where
  "collectedFragments config [] s = []"
| "collectedFragments config (m # ms) s =
     (case display_method m config s of
        (Inl e, s') \<Rightarrow>
          collectedFragments config ms
            (logger_error (''Failed to display module '' @ name m @ '': '' @ errorToString e) s')
      | (Inr moduleOutput, s') \<Rightarrow>
          (if moduleOutput \<noteq> [] then [moduleOutput] else []) @ collectedFragments config ms s')"

text \<open>
  The system a setup pass over the modules \<open>ms\<close> leaves, told from the modules alone:
  each module's setup runs on the system the earlier ones left, whether they returned or
  threw; a setup that throws is logged, and the pass goes on from the system that setup
  left. Likewise the system a display pass leaves.
\<close>

fun setupEffects :: "jsval \<Rightarrow> 's WelcomeModule list \<Rightarrow> 's sys \<Rightarrow> 's sys" where
  "setupEffects config [] s = s"
| "setupEffects config (m # ms) s =
     (case setup_method m config s of
        (Inl e, s') \<Rightarrow>
          setupEffects config ms
            (logger_error (''Failed to setup module '' @ name m @ '': '' @ errorToString e) s')
      | (Inr u, s') \<Rightarrow> setupEffects config ms s')"

fun displayEffects :: "jsval \<Rightarrow> 's WelcomeModule list \<Rightarrow> 's sys \<Rightarrow> 's sys" where
  "displayEffects config [] s = s"
| "displayEffects config (m # ms) s =
     (case display_method m config s of
        (Inl e, s') \<Rightarrow>
          displayEffects config ms
            (logger_error (''Failed to display module '' @ name m @ '': '' @ errorToString e) s')
      | (Inr moduleOutput, s') \<Rightarrow> displayEffects config ms s')"

subsection \<open>The built-in modules and the singleton registry\<close>

text \<open>
  Colouring (utils/color.ts). The functions call the chalk library, taken here for a text
  without escape sequences and line breaks, which is all the system module colours:
  at colour level 0, and for the empty text, chalk returns the text; otherwise it puts
  the text between the opening and the closing escape sequences of the styles.
\<close>

datatype ColorName = black | red | green | yellow | blue | magenta | cyan | white

fun colorCode :: "ColorName \<Rightarrow> string" where
  "colorCode black = ''30''"
| "colorCode red = ''31''"
| "colorCode green = ''32''"
| "colorCode yellow = ''33''"
| "colorCode blue = ''34''"
| "colorCode magenta = ''35''"
| "colorCode cyan = ''36''"
| "colorCode white = ''37''"

definition escapeSeq :: "string \<Rightarrow> string" where
  "escapeSeq code = [CHR 0x1B] @ ''['' @ code @ ''m''"

definition chalk_apply :: "nat \<Rightarrow> string \<Rightarrow> string \<Rightarrow> string \<Rightarrow> string" where
  "chalk_apply level openAll closeAll t =
     (if level = 0 \<or> t = [] then t else openAll @ t @ closeAll)"

definition colorText :: "nat \<Rightarrow> ColorName \<Rightarrow> string \<Rightarrow> string" where
  "colorText level color t = chalk_apply level (escapeSeq (colorCode color)) (escapeSeq ''39'') t"

definition colorBoldText :: "nat \<Rightarrow> ColorName \<Rightarrow> string \<Rightarrow> string" where
  "colorBoldText level color t =
     chalk_apply level (escapeSeq (colorCode color) @ escapeSeq ''1'')
       (escapeSeq ''22'' @ escapeSeq ''39'') t"

text \<open>
  What the system module reads from the operating system, as the texts it prints: the
  load averages (each with two decimals, joined by commas), the memory line after its
  label, the uptime, and the results of \<open>getDiskUsage\<close> and \<open>getBatteryInfo\<close>, which
  run a command, catch its failure and always return a text.
\<close>

record 's osProbe =
  loadavgText :: "'s \<Rightarrow> string"
  memoryText :: "'s \<Rightarrow> string"
  getDiskUsage :: "'s sys \<Rightarrow> string \<times> 's sys"
  getBatteryInfo :: "'s sys \<Rightarrow> string \<times> 's sys"
  getUptime :: "'s \<Rightarrow> string"

definition system_setup :: "jsval \<Rightarrow> 's sys \<Rightarrow> (error + unit) \<times> 's sys" where
  "system_setup config w = (Inr (), w)"

text \<open>
  The system module's \<open>display\<close> (modules/system.ts). The header line is pushed before
  the first switch of \<open>config.system\<close> is read.
\<close>

definition system_display :: "nat \<Rightarrow> 's osProbe \<Rightarrow> jsval \<Rightarrow> 's sys \<Rightarrow> (error + string) \<times> 's sys" where
  "system_display level probe config w =
     (case getProp config ''system'' of
        Inl e \<Rightarrow> (Inl e, w)
      | Inr sysCfg \<Rightarrow>
     let lines0 = [colorBoldText level yellow ''System Information:''] in
     (case getProp sysCfg ''showLoad'' of
        Inl e \<Rightarrow> (Inl e, w)
      | Inr showLoad \<Rightarrow>
     let lines1 = (if truthy showLoad
                   then lines0 @ [colorText level cyan ''Load'' @ '': '' @ loadavgText probe (ext w)]
                   else lines0) in
     (case getProp sysCfg ''showMemory'' of
        Inl e \<Rightarrow> (Inl e, w)
      | Inr showMemory \<Rightarrow>
     let lines2 = (if truthy showMemory
                   then lines1 @ [colorText level green ''Memory'' @ '': '' @ memoryText probe (ext w)]
                   else lines1) in
     (case getProp sysCfg ''showDisk'' of
        Inl e \<Rightarrow> (Inl e, w)
      | Inr showDisk \<Rightarrow>
     (case (if truthy showDisk
            then (case getDiskUsage probe w of
                    (disk, w') \<Rightarrow> (lines2 @ [colorText level magenta ''Disk'' @ '': '' @ disk], w'))
            else (lines2, w)) of
        (lines3, w3) \<Rightarrow>
     (case getProp sysCfg ''showBattery'' of
        Inl e \<Rightarrow> (Inl e, w3)
      | Inr showBattery \<Rightarrow>
     (case (if truthy showBattery
            then (case getBatteryInfo probe w3 of
                    (battery, w') \<Rightarrow> (lines3 @ [colorText level yellow ''Battery'' @ '': '' @ battery], w'))
            else (lines3, w3)) of
        (lines4, w4) \<Rightarrow>
     (case getProp sysCfg ''showUptime'' of
        Inl e \<Rightarrow> (Inl e, w4)
      | Inr showUptime \<Rightarrow>
     let lines5 = (if truthy showUptime
                   then lines4 @ [colorText level blue ''Uptime'' @ '': '' @ getUptime probe (ext w4)]
                   else lines4) in
     (Inr (join newline lines5), w4)))))))))"

text \<open>
  The module objects. Each class fixes the name; the methods of the github, weather and
  linearStalled modules (and of the greeting module) are parameters here: a pair of a
  setup and a display method.
\<close>

type_synonym 's methods =
  "(jsval \<Rightarrow> 's sys \<Rightarrow> (error + unit) \<times> 's sys) \<times> (jsval \<Rightarrow> 's sys \<Rightarrow> (error + string) \<times> 's sys)"

definition githubModule :: "'s methods \<Rightarrow> 's WelcomeModule" where
  "githubModule b = \<lparr>name = ''github'', setup_method = fst b, display_method = snd b\<rparr>"

definition weatherModule :: "'s methods \<Rightarrow> 's WelcomeModule" where
  "weatherModule b = \<lparr>name = ''weather'', setup_method = fst b, display_method = snd b\<rparr>"

definition linearStalledModule :: "'s methods \<Rightarrow> 's WelcomeModule" where
  "linearStalledModule b = \<lparr>name = ''linearStalled'', setup_method = fst b, display_method = snd b\<rparr>"

definition systemModule :: "'s methods \<Rightarrow> 's WelcomeModule" where
  "systemModule b = \<lparr>name = ''system'', setup_method = fst b, display_method = snd b\<rparr>"

definition greetingModule :: "'s methods \<Rightarrow> 's WelcomeModule" where
  "greetingModule b = \<lparr>name = ''greeting'', setup_method = fst b, display_method = snd b\<rparr>"

definition system_methods :: "nat \<Rightarrow> 's osProbe \<Rightarrow> 's methods" where
  "system_methods level probe = (system_setup, system_display level probe)"

text \<open>The singleton registry after the four \<open>register\<close> calls of modules/base.ts.\<close>

definition moduleRegistry ::
  "'s methods \<Rightarrow> 's methods \<Rightarrow> 's methods \<Rightarrow> 's methods \<Rightarrow> 's ModuleRegistry" where
  "moduleRegistry gh we li sy =
     register (systemModule sy)
       (register (linearStalledModule li)
          (register (weatherModule we)
             (register (githubModule gh) emptyRegistry)))"

section \<open>The configuration (types/config.ts, config/index.ts)\<close>

definition envValue :: "(string \<rightharpoonup> string) \<Rightarrow> string \<Rightarrow> jsval" where
  "envValue e k = (case e k of None \<Rightarrow> JUndefined | Some v \<Rightarrow> JStr v)"

text \<open>The text of \<open>${process.env.HOME || process.env.USERPROFILE}\<close>.\<close>

definition homeOrProfile :: "(string \<rightharpoonup> string) \<Rightarrow> string" where
  "homeOrProfile e =
     (let profile = (case e ''USERPROFILE'' of None \<Rightarrow> ''undefined'' | Some u \<Rightarrow> u) in
      case e ''HOME'' of
        None \<Rightarrow> profile
      | Some h \<Rightarrow> if h \<noteq> [] then h else profile)"

definition defaultConfig :: "(string \<rightharpoonup> string) \<Rightarrow> jsval" where
  "defaultConfig e =
     JObj [
       (''user'', JObj [(''userName'', JStr ''Jens'')]),
       (''weather'', JObj [
          (''city'', JStr ''New York''),
          (''country'', JStr ''US''),
          (''zip'', JStr ''10001''),
          (''units'', JStr ''imperial''),
          (''apiKey'', JStr []),
          (''showForecast'', JBool False),
          (''showHumidity'', JBool True),
          (''showWind'', JBool False)]),
       (''github'', JObj [
          (''personalToken'', envValue e ''GITHUB_PERSONAL_TOKEN''),
          (''username'', JUndefined),
          (''showAssignedPRs'', JBool True),
          (''showCreatedPRs'', JBool False),
          (''showMentions'', JBool False),
          (''maxPRs'', JNum 5)]),
       (''linear'', JObj [
          (''apiKey'', envValue e ''LINEAR_API_KEY''),
          (''teamNames'', JArr [JStr ''Application'', JStr ''Security'', JStr ''Dev Ops'']),
          (''daysStalled'', JNum 3),
          (''baseUrl'', JStr ''https://linear.app/'')]),
       (''system'', JObj [
          (''showLoad'', JBool True),
          (''showMemory'', JBool True),
          (''showDisk'', JBool False),
          (''showBattery'', JBool True),
          (''showUptime'', JBool True)]),
       (''cache'', JObj [
          (''weatherDuration'', JNum 3600),
          (''githubDuration'', JNum 300),
          (''quoteDuration'', JNum 86400)]),
       (''performance'', JObj [
          (''maxExecutionTime'', JNum 1),
          (''parallelExecution'', JBool False),
          (''showMetrics'', JBool False)]),
       (''display'', JObj [
          (''useEmojis'', JBool True),
          (''colorTheme'', JStr ''default''),
          (''logLevel'', JNum 1)]),
       (''enabledModules'',
          JArr [JStr ''system'', JStr ''greeting'', JStr ''weather'', JStr ''github'',
                JStr ''linearStalled'']),
       (''dataDir'', JStr (homeOrProfile e @ ''/.config/welcome/data''))]"

text \<open>
  The own enumerable properties an object spread copies: an object's properties, an
  array's elements and a string's characters under their indices, nothing for the other
  values.
\<close>

fun showNat :: "nat \<Rightarrow> string" where
  "showNat n =
     (if n < 10 then [char_of (48 + n)]
      else showNat (n div 10) @ [char_of (48 + n mod 10)])"

definition indexed :: "jsval list \<Rightarrow> (string \<times> jsval) list" where
  "indexed xs = map (\<lambda>i. (showNat i, xs ! i)) [0 ..< length xs]"

fun ownProperties :: "jsval \<Rightarrow> (string \<times> jsval) list" where
  "ownProperties (JObj ps) = ps"
| "ownProperties (JArr xs) = indexed xs"
| "ownProperties (JStr s) = indexed (map (\<lambda>c. JStr [c]) s)"
| "ownProperties v = []"

text \<open>\<open>{ ...a, ...b }\<close>: the properties of \<open>a\<close>, then those of \<open>b\<close>, a later value
  replacing an earlier one of the same name.\<close>

definition objectSpread :: "jsval \<Rightarrow> jsval \<Rightarrow> jsval" where
  "objectSpread a b =
     JObj (fold (\<lambda>p. AList.update (fst p) (snd p)) (ownProperties a @ ownProperties b) [])"

definition CONFIG_DIR :: "'s sys \<Rightarrow> string" where
  "CONFIG_DIR w = path_join (path_join (homedir w) ''.config'') ''welcome''"

definition CONFIG_FILE :: "'s sys \<Rightarrow> string" where
  "CONFIG_FILE w = path_join (CONFIG_DIR w) ''config.json''"

definition saveConfig :: "jsval \<Rightarrow> 's sys \<Rightarrow> (error + unit) \<times> 's sys" where
  "saveConfig config w =
     (case fs_writeFile (CONFIG_FILE w) (JSON_stringify config) w of
        (Inl e, w1) \<Rightarrow> (Inr (), logger_error (''Failed to save configuration: '' @ errorToString e) w1)
      | (Inr u, w1) \<Rightarrow> (Inr (), w1))"

text \<open>
  The inner \<open>try\<close> of \<open>loadConfig\<close>: read, parse, merge, and set the logger's level
  from \<open>config.display.logLevel\<close>, a read that throws when \<open>display\<close> is \<open>null\<close>.
\<close>

definition loadConfig_try :: "'s sys \<Rightarrow> (error + jsval) \<times> 's sys" where
  "loadConfig_try w =
     (case fs_readFile (CONFIG_FILE w) w of
        Inl e \<Rightarrow> (Inl e, w)
      | Inr configData \<Rightarrow>
          (case JSON_parse configData of
             Inl e \<Rightarrow> (Inl e, w)
           | Inr userConfig \<Rightarrow>
               let config = objectSpread (defaultConfig (env w)) userConfig in
               (case getProp config ''display'' of
                  Inl e \<Rightarrow> (Inl e, w)
                | Inr disp \<Rightarrow>
                    (case getProp disp ''logLevel'' of
                       Inl e \<Rightarrow> (Inl e, w)
                     | Inr level \<Rightarrow> (Inr config, logger_setLevel level w)))))"

definition loadConfig :: "'s sys \<Rightarrow> (error + jsval) \<times> 's sys" where
  "loadConfig w =
     (case fs_mkdir (CONFIG_DIR w) w of
        (Inl e, w1) \<Rightarrow>
          (Inr (defaultConfig (env w1)),
           logger_error (''Failed to load/create configuration: '' @ errorToString e) w1)
      | (Inr u, w1) \<Rightarrow>
          (case loadConfig_try w1 of
             (Inr config, w2) \<Rightarrow> (Inr config, w2)
           | (Inl e, w2) \<Rightarrow>
               (case saveConfig (defaultConfig (env w2)) w2 of
                  (Inl e', w3) \<Rightarrow>
                    (Inr (defaultConfig (env w3)),
                     logger_error (''Failed to load/create configuration: '' @ errorToString e') w3)
                | (Inr u', w3) \<Rightarrow>
                    (Inr (defaultConfig (env w3)),
                     logger_info ''Created default configuration file'' w3))))"

text \<open>A chain of property reads \<open>v.k1.k2...\<close>.\<close>

fun getPath :: "jsval \<Rightarrow> string list \<Rightarrow> error + jsval" where
  "getPath v [] = Inr v"
| "getPath v (k # ks) = (case getProp v k of Inl e \<Rightarrow> Inl e | Inr x \<Rightarrow> getPath x ks)"

text \<open>The configuration \<open>loadConfig\<close> returns (\<open>undefined\<close> if it were to fail).\<close>

definition loadedConfig :: "'s sys \<Rightarrow> jsval" where
  "loadedConfig w = (case fst (loadConfig w) of Inl e \<Rightarrow> JUndefined | Inr config \<Rightarrow> config)"

text \<open>
  What the persisted value \<open>u\<close> holds under the name \<open>k\<close>, as the spread copies it
  (the last one, should a name occur twice), and the values that are not sections: all but
  objects and \<open>undefined\<close>.
\<close>

definition persistedProperty :: "jsval \<Rightarrow> string \<Rightarrow> jsval option" where
  "persistedProperty u k = map_of (rev (ownProperties u)) k"

definition leafValue :: "jsval \<Rightarrow> bool" where
  "leafValue v = (case v of JObj ps \<Rightarrow> False | JUndefined \<Rightarrow> False | _ \<Rightarrow> True)"

section \<open>The entry point (index.ts)\<close>

definition console_log :: "string \<Rightarrow> 's sys \<Rightarrow> 's sys" where
  "console_log message w = w\<lparr>stdout := stdout w @ [message]\<rparr>"

text \<open>
  \<open>config.enabledModules.join(', ')\<close>, evaluated for a debug message: it throws when
  \<open>enabledModules\<close> is not an array.
\<close>

definition enabledModules_join :: "jsval \<Rightarrow> error + unit" where
  "enabledModules_join config =
     (case getProp config ''enabledModules'' of
        Inl e \<Rightarrow> Inl e
      | Inr (JArr names) \<Rightarrow> Inr ()
      | Inr JUndefined \<Rightarrow> Inl (TypeError ''Cannot read properties of undefined (reading join)'')
      | Inr JNull \<Rightarrow> Inl (TypeError ''Cannot read properties of null (reading join)'')
      | Inr v \<Rightarrow> Inl (TypeError ''config.enabledModules.join is not a function''))"

text \<open>
  \<open>init\<close>: the body of its \<open>try\<close>, and the \<open>catch\<close> that logs whatever the body
  throws. The registry is the singleton; the level \<open>LogLevel.WARN\<close> is the number 2.
\<close>

definition init_try :: "'s ModuleRegistry \<Rightarrow> 's world \<Rightarrow> (error + unit) \<times> 's world" where
  "init_try reg w =
     (case ensureCacheDir (sys w) of
        (Inl e, s1) \<Rightarrow> (Inl e, w\<lparr>sys := s1\<rparr>)
      | (Inr u, s1) \<Rightarrow>
     (case loadConfig s1 of
        (Inl e, s2) \<Rightarrow> (Inl e, w\<lparr>sys := s2\<rparr>)
      | (Inr config, s2) \<Rightarrow>
     let w2 = w\<lparr>sys := logger_setLevel (JNum 2) s2\<rparr> in
     (case enabledModules_join config of
        Inl e \<Rightarrow> (Inl e, w2)
      | Inr u1 \<Rightarrow>
     (case getEnabledModules reg config of
        Inl e \<Rightarrow> (Inl e, w2)
      | Inr enabledModules \<Rightarrow>
     (case setupModules reg config w2 of
        (Inl e, w3) \<Rightarrow> (Inl e, w3)
      | (Inr u2, w3) \<Rightarrow>
     (case displayWelcome reg config w3 of
        (Inl e, w4) \<Rightarrow> (Inl e, w4)
      | (Inr welcomeMessage, w4) \<Rightarrow>
          (Inr (), w4\<lparr>sys := console_log welcomeMessage (sys w4)\<rparr>)))))))"

definition init :: "'s ModuleRegistry \<Rightarrow> 's world \<Rightarrow> 's world" where
  "init reg w =
     (case init_try reg w of
        (Inl e, w') \<Rightarrow>
          w'\<lparr>sys := logger_error (''Failed to initialize welcome message system: '' @ errorToString e) (sys w')\<rparr>
      | (Inr u, w') \<Rightarrow> w')"

text \<open>
  The module body of index.ts: \<open>init()\<close> under the test \<open>require.main === module\<close>,
  then \<open>init()\<close> once more without a test. Each call starts a run of \<open>init\<close> that is
  not awaited, so the event loop interleaves the two runs at their awaits; the model
  executes them one after the other. Each run makes its own calls of the modules'
  methods (\<open>init_run_calls\<close> below), so the number of calls of a method is the same
  under every interleaving.
\<close>

definition index_main :: "bool \<Rightarrow> 's ModuleRegistry \<Rightarrow> 's world \<Rightarrow> 's world" where
  "index_main requireMainIsModule reg w =
     (let w1 = (if requireMainIsModule then init reg w else w) in init reg w1)"

section \<open>Examples\<close>

text \<open>Concrete states, modules and configurations, on which the statements below are evaluated.\<close>

text \<open>
  A small system for the examples: the home directory \<open>/home/u\<close>, at most the cache
  file of the key \<open>k\<close>, a file system that accepts every write or none, and a counter
  as the outside state.
\<close>

definition cacheWorld :: "fileEntry option \<Rightarrow> bool \<Rightarrow> int \<Rightarrow> nat sys" where
  "cacheWorld f denied t =
     \<lparr>files = (\<lambda>p. if p = ''/home/u/.config/welcome/cache/k.json'' then f else None),
      writeDenied = (\<lambda>p. denied), mkdirDenied = (\<lambda>p. False), nowMs = t,
      homedir = ''/home/u'', env = Map.empty, logLevel = JNum 1, logs = [], stdout = [],
      fetches = 0, ext = 0\<rparr>"

text \<open>Two request functions for the examples: one that always fails, one that returns a value.\<close>

definition failingRequest :: "nat \<Rightarrow> (error + jsval) \<times> nat" where
  "failingRequest n = (Inl (Error ''network down''), Suc n)"

definition valueRequest :: "jsval \<Rightarrow> nat \<Rightarrow> (error + jsval) \<times> nat" where
  "valueRequest v n = (Inr v, Suc n)"

text \<open>
  A state with an empty cache and no timers; methods that succeed with a fixed output
  and methods that throw; a module named \<open>n\<close> whose display prints its name; a
  configuration holding only the list of enabled modules; and a system configuration
  that shows the load only, with fixed texts from the operating system.
\<close>

definition exampleWorld :: "nat world" where
  "exampleWorld = \<lparr>sys = cacheWorld None False 1000, timers = Map.empty, calls = []\<rparr>"

definition okMethods :: "string \<Rightarrow> nat methods" where
  "okMethods out = ((\<lambda>config w. (Inr (), w)), (\<lambda>config w. (Inr out, w)))"

definition failingMethods :: "nat methods" where
  "failingMethods =
     ((\<lambda>config w. (Inl (Error ''setup failed''), w)),
      (\<lambda>config w. (Inl (Error ''display failed''), w)))"

text \<open>Methods whose setup is seen in the state: it adds \<open>n\<close> to the counter.\<close>

definition countingMethods :: "string \<Rightarrow> nat \<Rightarrow> nat methods" where
  "countingMethods out n =
     ((\<lambda>config w. (Inr (), w\<lparr>ext := ext w + n\<rparr>)), (\<lambda>config w. (Inr out, w)))"

definition exampleModule :: "string \<Rightarrow> nat WelcomeModule" where
  "exampleModule n = \<lparr>name = n, setup_method = fst (okMethods n), display_method = snd (okMethods n)\<rparr>"

definition configWith :: "string list \<Rightarrow> jsval" where
  "configWith names = JObj [(''enabledModules'', JArr (map JStr names))]"

definition exampleProbe :: "nat osProbe" where
  "exampleProbe =
     \<lparr>loadavgText = (\<lambda>s. ''0.10, 0.20, 0.30''), memoryText = (\<lambda>s. ''1.00 GB used / 2.00 GB total''),
      getDiskUsage = (\<lambda>w. (''N/A'', w)), getBatteryInfo = (\<lambda>w. (''N/A'', w)),
      getUptime = (\<lambda>s. ''1h 2m 3s'')\<rparr>"

definition systemOnlyConfig :: jsval where
  "systemOnlyConfig =
     JObj [(''system'', JObj [(''showLoad'', JBool True), (''showMemory'', JBool False),
                              (''showDisk'', JBool False), (''showBattery'', JBool False),
                              (''showUptime'', JBool False)]),
           (''enabledModules'', JArr [JStr ''system''])]"

text \<open>
  A system for the examples whose configuration file, when there is one, holds the given
  text.
\<close>

definition configWorld :: "content option \<Rightarrow> nat sys" where
  "configWorld text =
     \<lparr>files = (\<lambda>p. if p = ''/home/u/.config/welcome/config.json''
                    then map_option (\<lambda>t. \<lparr>content = t, mtimeMs = 0, readable = True\<rparr>) text
                    else None),
      writeDenied = (\<lambda>p. False), mkdirDenied = (\<lambda>p. False), nowMs = 1000,
      homedir = ''/home/u'', env = Map.empty, logLevel = JNum 1, logs = [], stdout = [],
      fetches = 0, ext = 0\<rparr>"

text \<open>
  For the examples: the program's registry with methods that succeed, and a state whose
  configuration file enables the system module only.
\<close>

definition exampleRegistry :: "nat ModuleRegistry" where
  "exampleRegistry = moduleRegistry (okMethods ''G'') (okMethods ''W'') (okMethods ''L'') (okMethods ''S'')"

definition configuredWorld :: "nat world" where
  "configuredWorld =
     \<lparr>sys = \<lparr>files = (\<lambda>p. if p = ''/home/u/.config/welcome/config.json''
                    then Some \<lparr>content = JsonText (JObj [(''enabledModules'', JArr [JStr ''system''])]),
                               mtimeMs = 0, readable = True\<rparr>
                    else None),
      writeDenied = (\<lambda>p. False), mkdirDenied = (\<lambda>p. False), nowMs = 1000,
      homedir = ''/home/u'', env = Map.empty, logLevel = JNum 1, logs = [], stdout = [],
      fetches = 0, ext = 0\<rparr>, timers = Map.empty, calls = []\<rparr>"

section \<open>Properties of the cache\<close>

subsection \<open>Reading the cache\<close>

text \<open>
  Claim C4. \<open>getCache\<close> never fails. Without a file for the key it returns \<open>null\<close>.
  With a file it returns the stored value exactly when the file's age
  \<open>now - mtimeMs\<close> is below \<open>maxAge * 1000\<close> and the file can be read and parsed, and
  \<open>null\<close> otherwise: an unreadable or malformed file yields \<open>null\<close>, not an error. At
  the boundary, where the age equals \<open>maxAge * 1000\<close>, the result is \<open>null\<close>.
\<close>

theorem getCache_value_iff_live:
  "(\<exists>v. getCache k maxAge w = Inr v) \<and>
   (files w (cacheFile w k) = None \<longrightarrow> getCache k maxAge w = Inr JNull) \<and>
   (\<forall>f. files w (cacheFile w k) = Some f \<longrightarrow>
      getCache k maxAge w =
        Inr (if nowMs w - mtimeMs f < maxAge * 1000
             then (if readable f
                   then (case content f of JsonText v \<Rightarrow> v | OtherText t \<Rightarrow> JNull)
                   else JNull)
             else JNull)) \<and>
   (\<forall>f. files w (cacheFile w k) = Some f \<and> nowMs w - mtimeMs f = maxAge * 1000 \<longrightarrow>
      getCache k maxAge w = Inr JNull)"
  by (auto simp: getCache_def getCache_try_def fs_stat_def fs_readFile_def JSON_parse_def Let_def
           split: option.splits sum.splits content.splits)

text \<open>
  The theorem at a fresh entry, at the boundary (age 60000 ms for 60 s), at a malformed
  file, at an unreadable file and without a file.
\<close>

theorem getCache_value_iff_live_witness:
  "getCache ''k'' 60 (cacheWorld (Some \<lparr>content = JsonText (JNum 7), mtimeMs = 1000, readable = True\<rparr>) False 60999) = Inr (JNum 7) \<and>
   getCache ''k'' 60 (cacheWorld (Some \<lparr>content = JsonText (JNum 7), mtimeMs = 1000, readable = True\<rparr>) False 61000) = Inr JNull \<and>
   getCache ''k'' 60 (cacheWorld (Some \<lparr>content = OtherText ''{'', mtimeMs = 1000, readable = True\<rparr>) False 2000) = Inr JNull \<and>
   getCache ''k'' 60 (cacheWorld (Some \<lparr>content = JsonText (JNum 7), mtimeMs = 1000, readable = False\<rparr>) False 2000) = Inr JNull \<and>
   getCache ''k'' 60 (cacheWorld None False 2000) = Inr JNull"
  using getCache_value_iff_live [of "''k''" 60 "cacheWorld (Some \<lparr>content = JsonText (JNum 7), mtimeMs = 1000, readable = True\<rparr>) False 60999"]
        getCache_value_iff_live [of "''k''" 60 "cacheWorld (Some \<lparr>content = JsonText (JNum 7), mtimeMs = 1000, readable = True\<rparr>) False 61000"]
        getCache_value_iff_live [of "''k''" 60 "cacheWorld (Some \<lparr>content = OtherText ''{'', mtimeMs = 1000, readable = True\<rparr>) False 2000"]
        getCache_value_iff_live [of "''k''" 60 "cacheWorld (Some \<lparr>content = JsonText (JNum 7), mtimeMs = 1000, readable = False\<rparr>) False 2000"]
        getCache_value_iff_live [of "''k''" 60 "cacheWorld None False 2000"]
  by (simp add: cacheWorld_def cacheFile_def CACHE_DIR_def path_join_def)

subsection \<open>Writing and reading back\<close>

lemma ensureCacheDir_frame:
  "ensureCacheDir w = (Inr (), w\<lparr>logs := logs (snd (ensureCacheDir w))\<rparr>)"
  by (auto simp: ensureCacheDir_def fs_mkdir_def logger_error_def)

lemma cacheFile_frame [simp]:
  "cacheFile (w\<lparr>logs := l\<rparr>) k = cacheFile w k"
  "cacheFile (w\<lparr>files := fs\<rparr>) k = cacheFile w k"
  "cacheFile (w\<lparr>nowMs := t\<rparr>) k = cacheFile w k"
  "cacheFile (w\<lparr>ext := s, fetches := n\<rparr>) k = cacheFile w k"
  by (simp_all add: cacheFile_def CACHE_DIR_def)

lemma saveCache_stored:
  assumes "\<not> writeDenied w (cacheFile w k)" and "v \<noteq> JUndefined"
  shows "saveCache k v w =
           (Inr (), w\<lparr>logs := logs (snd (ensureCacheDir w)),
                      files := (files w)(cacheFile w k \<mapsto>
                        \<lparr>content = JsonText (jsonify v), mtimeMs = nowMs w,
                         readable = (case files w (cacheFile w k) of None \<Rightarrow> True | Some f \<Rightarrow> readable f)\<rparr>)\<rparr>)"
  using assms
  by (auto simp: saveCache_def ensureCacheDir_def fs_mkdir_def logger_error_def fs_writeFile_def
                 JSON_stringify_def)

lemma saveCache_returns: "fst (saveCache k v w) = Inr ()"
  by (auto simp: saveCache_def ensureCacheDir_def fs_mkdir_def fs_writeFile_def JSON_stringify_def
           split: prod.splits sum.splits option.splits if_splits)

text \<open>
  Claim C3, as stated, fails: \<open>saveCache\<close> catches a rejected write and returns, so the
  value is not there to be read back. This happens on a cache directory that cannot be
  written, and, on a directory that can, for a key with a slash in it, whose file lies in
  a subdirectory that does not exist: the linearStalled module makes the key
  \<open>linear_stalled_dev/ops\<close> for a team named \<open>Dev/Ops\<close>.
\<close>

theorem saveCache_getCache_denied_counterexample:
  "getCache ''k'' 1000 (snd (saveCache ''k'' (JObj [(''foo'', JStr ''bar'')]) (cacheWorld None True 1000)))
     = Inr JNull \<and>
   getCache ''linear_stalled_dev/ops'' 1000
     (snd (saveCache ''linear_stalled_dev/ops'' (JArr [JNum 1])
        ((cacheWorld None False 1000)
           \<lparr>writeDenied := (\<lambda>p. p = ''/home/u/.config/welcome/cache/linear_stalled_dev/ops.json'')\<rparr>)))
     = Inr JNull"
  by (simp add: saveCache_def ensureCacheDir_def fs_mkdir_def fs_writeFile_def JSON_stringify_def
                logger_error_def getCache_def getCache_try_def fs_stat_def cacheWorld_def
                cacheFile_def CACHE_DIR_def path_join_def)

text \<open>
  Claim C3, amended. When the file system accepts the write of the key's cache file and
  the file can be read (it is new, or it was readable before), \<open>saveCache k v\<close> followed
  at once by \<open>getCache k maxAge\<close> with \<open>maxAge > 0\<close> returns \<open>v\<close>, for every key and
  every JSON-serializable value; and so does a \<open>getCache\<close> that follows after less
  than \<open>maxAge * 1000\<close> milliseconds.
\<close>

theorem saveCache_getCache_roundtrip:
  assumes "\<not> writeDenied w (cacheFile w k)"
    and "\<forall>f. files w (cacheFile w k) = Some f \<longrightarrow> readable f"
    and "serializable v"
    and "0 < maxAge"
  shows "getCache k maxAge (snd (saveCache k v w)) = Inr v \<and>
         (\<forall>d. d < maxAge * 1000 \<longrightarrow>
            getCache k maxAge (elapse d (snd (saveCache k v w))) = Inr v)"
proof -
  from assms(3) have v: "v \<noteq> JUndefined" "jsonify v = v"
    by (simp_all add: serializable_def)
  have r: "(case files w (cacheFile w k) of None \<Rightarrow> True | Some f \<Rightarrow> readable f)"
    using assms(2) by (simp split: option.splits)
  have "getCache k maxAge (snd (saveCache k v w)) = Inr v"
    using assms(4) r v(2)
    by (simp add: saveCache_stored [OF assms(1) v(1)] getCache_def getCache_try_def fs_stat_def
                  fs_readFile_def JSON_parse_def)
  moreover have "getCache k maxAge (elapse d (snd (saveCache k v w))) = Inr v"
    if "d < maxAge * 1000" for d
    using that r v(2)
    by (simp add: saveCache_stored [OF assms(1) v(1)] elapse_def getCache_def getCache_try_def
                  fs_stat_def fs_readFile_def JSON_parse_def)
  ultimately show ?thesis by blast
qed

theorem saveCache_getCache_roundtrip_witness:
  "\<not> writeDenied (cacheWorld None False 1000) (cacheFile (cacheWorld None False 1000) ''k'') \<and>
   serializable (JObj [(''foo'', JStr ''bar'')]) \<and>
   getCache ''k'' 1000 (snd (saveCache ''k'' (JObj [(''foo'', JStr ''bar'')]) (cacheWorld None False 1000)))
     = Inr (JObj [(''foo'', JStr ''bar'')])"
proof -
  have a: "\<not> writeDenied (cacheWorld None False 1000) (cacheFile (cacheWorld None False 1000) ''k'')"
    by (simp add: cacheWorld_def)
  have b: "\<forall>f. files (cacheWorld None False 1000) (cacheFile (cacheWorld None False 1000) ''k'') = Some f
              \<longrightarrow> readable f"
    by (simp add: cacheWorld_def)
  have c: "serializable (JObj [(''foo'', JStr ''bar'')])"
    by (simp add: serializable_def)
  have d: "(0::int) < 1000" by simp
  from saveCache_getCache_roundtrip [OF a b c d] a c show ?thesis by blast
qed

subsection \<open>Requests through the cache\<close>

lemmas cache_eval_defs = apiRequest_def saveCache_def ensureCacheDir_def fs_mkdir_def fs_writeFile_def JSON_stringify_def
                logger_error_def getCache_def getCache_try_def fs_stat_def fs_readFile_def JSON_parse_def cacheWorld_def
                cacheFile_def CACHE_DIR_def path_join_def elapse_def failingRequest_def valueRequest_def

lemma getCache_not_live: "\<not> liveEntry k maxAge w \<Longrightarrow> getCache k maxAge w = Inr JNull"
  by (auto simp: liveEntry_def getCache_def getCache_try_def fs_stat_def Let_def split: option.splits)

lemma getCache_total: "\<exists>v. getCache k maxAge w = Inr v"
  by (auto simp: getCache_def split: sum.splits option.splits)

lemma saveCache_frame:
  "fetches (snd (saveCache k v w)) = fetches w \<and> ext (snd (saveCache k v w)) = ext w"
  by (auto simp: saveCache_def ensureCacheDir_def fs_mkdir_def fs_writeFile_def JSON_stringify_def logger_error_def
           split: prod.splits sum.splits option.splits if_splits)

lemma apiRequest_hit:
  "getCache k maxAge w = Inr c \<Longrightarrow> truthy c \<Longrightarrow> apiRequest k maxAge requestFn w = (Inr c, w)"
  by (simp add: apiRequest_def)

lemma apiRequest_miss_failure:
  assumes "getCache k maxAge w = Inr c" and "\<not> truthy c" and "requestFn (ext w) = (Inl e, s')"
  shows "apiRequest k maxAge requestFn w =
           (Inl e, logger_error (''API request failed for '' @ k @ '': '' @ errorToString e)
                     (w\<lparr>ext := s', fetches := Suc (fetches w)\<rparr>))"
  using assms by (simp add: apiRequest_def)

text \<open>
  Claim C5. When the cache holds no live entry for the key and the request function
  fails, \<open>apiRequest\<close> fails with the request function's error, after one call of it,
  and leaves every file as it was: nothing is cached.
\<close>

theorem apiRequest_failure_propagates:
  assumes "\<not> liveEntry k maxAge w" and "requestFn (ext w) = (Inl e, s')"
  shows "fst (apiRequest k maxAge requestFn w) = Inl e \<and>
         files (snd (apiRequest k maxAge requestFn w)) = files w \<and>
         fetches (snd (apiRequest k maxAge requestFn w)) = Suc (fetches w)"
proof -
  have "getCache k maxAge w = Inr JNull" by (rule getCache_not_live [OF assms(1)])
  then have "apiRequest k maxAge requestFn w =
           (Inl e, logger_error (''API request failed for '' @ k @ '': '' @ errorToString e)
                     (w\<lparr>ext := s', fetches := Suc (fetches w)\<rparr>))"
    using assms(2) by (intro apiRequest_miss_failure [where c = JNull]) simp_all
  then show ?thesis by (simp add: logger_error_def)
qed

theorem apiRequest_failure_propagates_witness:
  "\<not> liveEntry ''k'' 1000 (cacheWorld None False 1000) \<and>
   fst (apiRequest ''k'' 1000 failingRequest (cacheWorld None False 1000)) = Inl (Error ''network down'') \<and>
   files (snd (apiRequest ''k'' 1000 failingRequest (cacheWorld None False 1000))) =
     files (cacheWorld None False 1000)"
proof -
  have a: "\<not> liveEntry ''k'' 1000 (cacheWorld None False 1000)"
    by (simp add: liveEntry_def cacheWorld_def cacheFile_def CACHE_DIR_def path_join_def)
  have b: "failingRequest (ext (cacheWorld None False 1000)) = (Inl (Error ''network down''), 1)"
    by (simp add: failingRequest_def cacheWorld_def)
  from apiRequest_failure_propagates
         [where requestFn = failingRequest and w = "cacheWorld None False 1000", OF a b] a
  show ?thesis by blast
qed

lemma apiRequest_at_most_one_fetch:
  "fetches (snd (apiRequest k maxAge requestFn w)) \<le> Suc (fetches w)"
proof -
  obtain c where c: "getCache k maxAge w = Inr c" using getCache_total by blast
  obtain r s' where r: "requestFn (ext w) = (r, s')" by (cases "requestFn (ext w)")
  show ?thesis
  proof (cases "truthy c")
    case True then show ?thesis by (simp add: apiRequest_def c)
  next
    case False
    show ?thesis
    proof (cases r)
      case (Inl e)
      then show ?thesis using False by (simp add: apiRequest_def c r logger_error_def)
    next
      case (Inr v)
      have "fst (saveCache k v (w\<lparr>ext := s', fetches := Suc (fetches w)\<rparr>)) = Inr ()"
        by (rule saveCache_returns)
      then show ?thesis using False Inr saveCache_frame [of k v "w\<lparr>ext := s', fetches := Suc (fetches w)\<rparr>"]
        by (auto simp: apiRequest_def c r split: prod.splits sum.splits)
    qed
  qed
qed

lemma truthy_jsonify: "truthy (jsonify v) = truthy v"
  by (cases v) simp_all

lemma apiRequest_miss_success:
  assumes "getCache k maxAge w = Inr c" and "\<not> truthy c"
    and "requestFn (ext w) = (Inr v, s')" and "truthy v"
    and "\<not> writeDenied w (cacheFile w k)"
  shows "apiRequest k maxAge requestFn w =
           (Inr v, w\<lparr>ext := s', fetches := Suc (fetches w),
                     logs := logs (snd (ensureCacheDir (w\<lparr>ext := s', fetches := Suc (fetches w)\<rparr>))),
                     files := (files w)(cacheFile w k \<mapsto>
                        \<lparr>content = JsonText (jsonify v), mtimeMs = nowMs w,
                         readable = (case files w (cacheFile w k) of None \<Rightarrow> True | Some f \<Rightarrow> readable f)\<rparr>)\<rparr>)"
proof -
  have v: "v \<noteq> JUndefined" using assms(4) by auto
  have d: "\<not> writeDenied (w\<lparr>ext := s', fetches := Suc (fetches w)\<rparr>)
              (cacheFile (w\<lparr>ext := s', fetches := Suc (fetches w)\<rparr>) k)"
    using assms(5) by simp
  show ?thesis
    using assms(1,2,3) by (simp add: apiRequest_def saveCache_stored [OF d v])
qed

text \<open>
  Claim C1, as stated, fails. A request function that fails caches nothing, so the second
  call invokes it again; and when the cache directory rejects the write, \<open>saveCache\<close>
  swallows the error and the second call misses again. Both runs below call the request
  function twice.
\<close>

theorem apiRequest_twice_counterexample:
  "fetches (snd (apiRequest ''k'' 1000 failingRequest
                  (elapse 0 (snd (apiRequest ''k'' 1000 failingRequest (cacheWorld None False 1000)))))) = 2 \<and>
   fetches (snd (apiRequest ''k'' 1000 (valueRequest (JObj [(''value'', JNum 123)]))
                  (elapse 0 (snd (apiRequest ''k'' 1000 (valueRequest (JObj [(''value'', JNum 123)]))
                     (cacheWorld None True 1000)))))) = 2"
  by (simp add: cache_eval_defs)

text \<open>
  Claim C1, amended. Take two calls of \<open>apiRequest\<close> with the same key, the second
  \<open>d\<close> milliseconds after the first with \<open>d < maxAge * 1000\<close>. When the request
  function succeeds with a truthy value \<open>v\<close>, the file system accepts the write of the
  key's cache file and that file can be read, the two calls invoke the request function
  at most once in total; and when the first call invoked it, the first call returns
  \<open>v\<close> and the second returns the value cached by the first without another
  invocation and without changing anything.
\<close>

theorem apiRequest_second_call_cached:
  assumes "requestFn (ext w) = (Inr v, s')" and "truthy v"
    and "\<not> writeDenied w (cacheFile w k)"
    and "\<forall>f. files w (cacheFile w k) = Some f \<longrightarrow> readable f"
    and "d < maxAge * 1000"
  shows "fetches (snd (apiRequest k maxAge requestFn
                        (elapse d (snd (apiRequest k maxAge requestFn w))))) \<le> Suc (fetches w) \<and>
         (fetches (snd (apiRequest k maxAge requestFn w)) = Suc (fetches w) \<longrightarrow>
            fst (apiRequest k maxAge requestFn w) = Inr v \<and>
            apiRequest k maxAge requestFn (elapse d (snd (apiRequest k maxAge requestFn w))) =
              (Inr (jsonify v), elapse d (snd (apiRequest k maxAge requestFn w))))"
proof -
  obtain c where c: "getCache k maxAge w = Inr c" using getCache_total by blast
  show ?thesis
  proof (cases "truthy c")
    case True
    then have "apiRequest k maxAge requestFn w = (Inr c, w)" by (intro apiRequest_hit [OF c])
    then show ?thesis
      using apiRequest_at_most_one_fetch [of k maxAge requestFn "elapse d w"]
      by (simp add: elapse_def)
  next
    case False
    have r: "(case files w (cacheFile w k) of None \<Rightarrow> True | Some f \<Rightarrow> readable f)"
      using assms(4) by (simp split: option.splits)
    have m: "apiRequest k maxAge requestFn w =
           (Inr v, w\<lparr>ext := s', fetches := Suc (fetches w),
                     logs := logs (snd (ensureCacheDir (w\<lparr>ext := s', fetches := Suc (fetches w)\<rparr>))),
                     files := (files w)(cacheFile w k \<mapsto>
                        \<lparr>content = JsonText (jsonify v), mtimeMs = nowMs w,
                         readable = (case files w (cacheFile w k) of None \<Rightarrow> True | Some f \<Rightarrow> readable f)\<rparr>)\<rparr>)"
      using c False assms(1,2,3) by (intro apiRequest_miss_success [where c = c]) simp_all
    have g: "getCache k maxAge (elapse d (snd (apiRequest k maxAge requestFn w))) = Inr (jsonify v)"
      using assms(5) r
      by (simp add: m elapse_def getCache_def getCache_try_def fs_stat_def fs_readFile_def JSON_parse_def)
    have "apiRequest k maxAge requestFn (elapse d (snd (apiRequest k maxAge requestFn w))) =
            (Inr (jsonify v), elapse d (snd (apiRequest k maxAge requestFn w)))"
      using assms(2) by (intro apiRequest_hit [OF g]) (simp add: truthy_jsonify)
    then show ?thesis by (simp add: m elapse_def)
  qed
qed

theorem apiRequest_second_call_cached_witness:
  "truthy (JObj [(''value'', JNum 123)]) \<and>
   fetches (snd (apiRequest ''k'' 1000 (valueRequest (JObj [(''value'', JNum 123)]))
                  (elapse 5 (snd (apiRequest ''k'' 1000 (valueRequest (JObj [(''value'', JNum 123)]))
                     (cacheWorld None False 1000)))))) = 1 \<and>
   fst (apiRequest ''k'' 1000 (valueRequest (JObj [(''value'', JNum 123)]))
                  (elapse 5 (snd (apiRequest ''k'' 1000 (valueRequest (JObj [(''value'', JNum 123)]))
                     (cacheWorld None False 1000))))) = Inr (JObj [(''value'', JNum 123)])"
proof -
  have a: "valueRequest (JObj [(''value'', JNum 123)]) (ext (cacheWorld None False 1000)) =
             (Inr (JObj [(''value'', JNum 123)]), 1)"
    by (simp add: valueRequest_def cacheWorld_def)
  have b: "truthy (JObj [(''value'', JNum 123)])" by simp
  have c: "\<not> writeDenied (cacheWorld None False 1000) (cacheFile (cacheWorld None False 1000) ''k'')"
    by (simp add: cacheWorld_def)
  have d: "\<forall>f. files (cacheWorld None False 1000) (cacheFile (cacheWorld None False 1000) ''k'') = Some f
              \<longrightarrow> readable f"
    by (simp add: cacheWorld_def)
  have e: "(5::int) < 1000 * 1000" by simp
  have f: "fetches (snd (apiRequest ''k'' 1000 (valueRequest (JObj [(''value'', JNum 123)]))
             (cacheWorld None False 1000))) = Suc (fetches (cacheWorld None False 1000))"
    by (simp add: cache_eval_defs)
  from apiRequest_second_call_cached
         [where requestFn = "valueRequest (JObj [(''value'', JNum 123)])"
            and w = "cacheWorld None False 1000", OF a b c d e] f b
  show ?thesis by (simp add: cacheWorld_def elapse_def)
qed

text \<open>
  The test \<open>if (cachedData)\<close> reads a cached value by its truthiness: a request function
  that returns \<open>0\<close> is called again by the second call, although the first call wrote
  the value to the cache.
\<close>

lemma apiRequest_falsy_value_example:
  "fetches (snd (apiRequest ''k'' 1000 (valueRequest (JNum 0))
                  (elapse 0 (snd (apiRequest ''k'' 1000 (valueRequest (JNum 0))
                     (cacheWorld None False 1000)))))) = 2 \<and>
   getCache ''k'' 1000 (snd (apiRequest ''k'' 1000 (valueRequest (JNum 0)) (cacheWorld None False 1000)))
     = Inr (JNum 0)"
  by (simp add: cache_eval_defs)

section \<open>Properties of the orchestrator\<close>

subsection \<open>The loops\<close>

lemma setupModules_step_calls:
  "calls (setupModules_step config m w) = calls w @ [SetupCall (name m)]"
  by (auto simp: setupModules_step_def startTimer_def endTimer_def Let_def
           split: prod.splits sum.splits option.splits)

lemma setupModules_loop_calls:
  "calls (setupModules_loop config ms w) = calls w @ map (\<lambda>m. SetupCall (name m)) ms"
  by (induction ms arbitrary: w) (simp_all add: setupModules_step_calls)

lemma displayWelcome_step_explicit:
  "displayWelcome_step config m (out, w) =
     (case display_method m config (sys w) of
        (Inl e, s') \<Rightarrow>
          (out,
           w\<lparr>timers := (timers w)(''display_'' @ name m \<mapsto> nowMs (sys w)),
             sys := logger_error (''Failed to display module '' @ name m @ '': '' @ errorToString e) s',
             calls := calls w @ [DisplayCall (name m)]\<rparr>)
      | (Inr moduleOutput, s') \<Rightarrow>
          (if moduleOutput \<noteq> [] then out @ [moduleOutput] else out,
           w\<lparr>timers := (timers w)(''display_'' @ name m := None),
             sys := s',
             calls := calls w @ [DisplayCall (name m)]\<rparr>))"
  by (auto simp: displayWelcome_step_def startTimer_def endTimer_def Let_def
           split: prod.splits sum.splits option.splits)

lemma displayWelcome_step_calls:
  "calls (snd (displayWelcome_step config m (out, w))) = calls w @ [DisplayCall (name m)]"
  by (simp add: displayWelcome_step_explicit split: prod.splits sum.splits)

lemma displayWelcome_step_timers:
  "k \<noteq> ''display_'' @ name m \<Longrightarrow>
   timers (snd (displayWelcome_step config m (out, w))) k = timers w k"
  by (simp add: displayWelcome_step_explicit split: prod.splits sum.splits)

lemma displayWelcome_step_output:
  "fst (displayWelcome_step config m (out, w)) @ collectedFragments config ms (sys (snd (displayWelcome_step config m (out, w))))
     = out @ collectedFragments config (m # ms) (sys w)"
  by (simp add: displayWelcome_step_explicit split: prod.splits sum.splits)

lemma displayWelcome_loop_calls:
  "calls (snd (displayWelcome_loop config ms (out, w))) =
     calls w @ map (\<lambda>m. DisplayCall (name m)) ms"
proof (induction ms arbitrary: out w)
  case Nil
  show ?case by simp
next
  case (Cons m ms)
  obtain o1 w1 where s: "displayWelcome_step config m (out, w) = (o1, w1)"
    by (cases "displayWelcome_step config m (out, w)")
  have "calls w1 = calls w @ [DisplayCall (name m)]"
    using displayWelcome_step_calls [of config m out w] by (simp add: s)
  then show ?case using Cons.IH [of o1 w1] by (simp add: s)
qed

lemma displayWelcome_loop_timers:
  "\<forall>m \<in> set ms. k \<noteq> ''display_'' @ name m \<Longrightarrow>
   timers (snd (displayWelcome_loop config ms (out, w))) k = timers w k"
proof (induction ms arbitrary: out w)
  case Nil
  show ?case by simp
next
  case (Cons m ms)
  obtain o1 w1 where s: "displayWelcome_step config m (out, w) = (o1, w1)"
    by (cases "displayWelcome_step config m (out, w)")
  have "timers w1 k = timers w k"
    using displayWelcome_step_timers [of k m config out w] Cons.prems by (simp add: s)
  then show ?case using Cons.IH [of o1 w1] Cons.prems by (simp add: s)
qed

lemma displayWelcome_loop_output:
  "fst (displayWelcome_loop config ms (out, w)) = out @ collectedFragments config ms (sys w)"
proof (induction ms arbitrary: out w)
  case Nil
  show ?case by simp
next
  case (Cons m ms)
  obtain o1 w1 where s: "displayWelcome_step config m (out, w) = (o1, w1)"
    by (cases "displayWelcome_step config m (out, w)")
  have "o1 @ collectedFragments config ms (sys w1) = out @ collectedFragments config (m # ms) (sys w)"
    using displayWelcome_step_output [of config m out w ms] by (simp add: s)
  then show ?case using Cons.IH [of o1 w1] by (simp add: s)
qed

lemma welcome_timer_kept:
  "n \<noteq> ''welcome'' \<Longrightarrow> ''display_welcome'' \<noteq> ''display_'' @ n"
  by auto

lemma displayWelcome_result:
  assumes "getEnabledModules reg config = Inr ms"
    and "\<forall>m \<in> set ms. name m \<noteq> ''welcome''"
  shows "fst (displayWelcome reg config w) =
           Inr (join newline ([] # collectedFragments config ms (sys w) @ [[]])) \<and>
         calls (snd (displayWelcome reg config w)) = calls w @ map (\<lambda>m. DisplayCall (name m)) ms"
proof -
  let ?w1 = "startTimer ''display_welcome'' w"
  obtain o1 w2 where l: "displayWelcome_loop config ms ([[]], ?w1) = (o1, w2)"
    by (cases "displayWelcome_loop config ms ([[]], ?w1)")
  have k: "\<forall>m \<in> set ms. ''display_welcome'' \<noteq> ''display_'' @ name m"
    using assms(2) by auto
  have t: "timers w2 ''display_welcome'' = Some (nowMs (sys w))"
    using displayWelcome_loop_timers [OF k, of config "[[]]" ?w1] l
    by (simp add: startTimer_def)
  have out: "o1 = [[]] @ collectedFragments config ms (sys w)"
    using displayWelcome_loop_output [of config ms "[[]]" ?w1] l by (simp add: startTimer_def)
  have c: "calls w2 = calls w @ map (\<lambda>m. DisplayCall (name m)) ms"
    using displayWelcome_loop_calls [of config ms "[[]]" ?w1] l by (simp add: startTimer_def)
  show ?thesis
    by (simp add: displayWelcome_def assms(1) l endTimer_def t out c Let_def)
qed

lemma setupModules_result:
  assumes "getEnabledModules reg config = Inr ms"
  shows "fst (setupModules reg config w) = Inr () \<and>
         calls (snd (setupModules reg config w)) = calls w @ map (\<lambda>m. SetupCall (name m)) ms"
  by (simp add: setupModules_def assms setupModules_loop_calls)

lemma displayWelcome_calls:
  assumes "getEnabledModules reg config = Inr ms"
  shows "calls (snd (displayWelcome reg config w)) = calls w @ map (\<lambda>m. DisplayCall (name m)) ms"
proof -
  let ?w1 = "startTimer ''display_welcome'' w"
  obtain o1 w2 where l: "displayWelcome_loop config ms ([[]], ?w1) = (o1, w2)"
    by (cases "displayWelcome_loop config ms ([[]], ?w1)")
  have c: "calls w2 = calls w @ map (\<lambda>m. DisplayCall (name m)) ms"
    using displayWelcome_loop_calls [of config ms "[[]]" ?w1] l by (simp add: startTimer_def)
  show ?thesis
    using c by (simp add: displayWelcome_def assms l endTimer_def Let_def split: option.splits)
qed

lemma filterDefined_mem:
  "m \<in> set (filterDefined (map f xs)) \<longleftrightarrow> (\<exists>x \<in> set xs. f x = Some m)"
proof (induction xs)
  case Nil
  show ?case by simp
next
  case (Cons x xs)
  then show ?case by (cases "f x") auto
qed





lemma getModule_emptyRegistry [simp]: "getModule emptyRegistry n = None"
  by (simp add: getModule_def emptyRegistry_def)



subsection \<open>The enabled modules\<close>



subsection \<open>The singleton registry\<close>

lemma moduleRegistry_modules:
  "modules (moduleRegistry gh we li sy) =
     [(''github'', githubModule gh), (''weather'', weatherModule we),
      (''linearStalled'', linearStalledModule li), (''system'', systemModule sy)]"
  by (simp add: moduleRegistry_def register_def emptyRegistry_def githubModule_def weatherModule_def
                linearStalledModule_def systemModule_def)

lemma moduleRegistry_get:
  "modules_get (moduleRegistry gh we li sy) key = Some m \<Longrightarrow>
   name m \<in> {''github'', ''weather'', ''linearStalled'', ''system''}"
  by (auto simp: modules_get_def moduleRegistry_modules githubModule_def weatherModule_def
                 linearStalledModule_def systemModule_def split: jsval.splits if_splits)

lemma getEnabledModules_array:
  "getProp config ''enabledModules'' = Inr (JArr xs) \<Longrightarrow>
   getEnabledModules reg config = Inr (filterDefined (map (modules_get reg) xs))"
  by (simp add: getEnabledModules_def)

lemma getEnabledModules_Inr:
  "getEnabledModules reg config = Inr ms \<Longrightarrow>
   \<exists>xs. getProp config ''enabledModules'' = Inr (JArr xs) \<and> ms = filterDefined (map (modules_get reg) xs)"
  by (auto simp: getEnabledModules_def split: sum.splits jsval.splits)

lemma moduleRegistry_enabled_names:
  assumes "getEnabledModules (moduleRegistry gh we li sy) config = Inr ms" and "m \<in> set ms"
  shows "name m \<in> {''github'', ''weather'', ''linearStalled'', ''system''}"
proof -
  from getEnabledModules_Inr [OF assms(1)] obtain xs where
    "ms = filterDefined (map (modules_get (moduleRegistry gh we li sy)) xs)" by blast
  with assms(2) obtain x where "modules_get (moduleRegistry gh we li sy) x = Some m"
    by (auto simp: filterDefined_mem)
  then show ?thesis by (rule moduleRegistry_get)
qed

text \<open>
  The system after a pass is the one the modules' methods leave, each run on what the
  earlier ones left.
\<close>

lemma setupModules_step_explicit:
  "setupModules_step config m w =
     (case setup_method m config (sys w) of
        (Inl e, s') \<Rightarrow>
          w\<lparr>timers := (timers w)(''setup_'' @ name m \<mapsto> nowMs (sys w)),
            sys := logger_error (''Failed to setup module '' @ name m @ '': '' @ errorToString e) s',
            calls := calls w @ [SetupCall (name m)]\<rparr>
      | (Inr u, s') \<Rightarrow>
          w\<lparr>timers := (timers w)(''setup_'' @ name m := None),
            sys := s',
            calls := calls w @ [SetupCall (name m)]\<rparr>)"
  by (auto simp: setupModules_step_def startTimer_def endTimer_def Let_def
           split: prod.splits sum.splits option.splits)

lemma setupModules_step_sys:
  "setupEffects config ms (sys (setupModules_step config m w)) = setupEffects config (m # ms) (sys w)"
  by (simp add: setupModules_step_explicit split: prod.splits sum.splits)

lemma setupModules_loop_sys:
  "sys (setupModules_loop config ms w) = setupEffects config ms (sys w)"
proof (induction ms arbitrary: w)
  case Nil
  show ?case by simp
next
  case (Cons m ms)
  have "sys (setupModules_loop config (m # ms) w) =
          setupEffects config ms (sys (setupModules_step config m w))"
    by (simp add: Cons.IH)
  then show ?case by (simp only: setupModules_step_sys)
qed

lemma setupModules_sys:
  assumes "getEnabledModules reg config = Inr ms"
  shows "sys (snd (setupModules reg config w)) = setupEffects config ms (sys w)"
  by (simp add: setupModules_def assms setupModules_loop_sys)

lemma displayWelcome_step_sys:
  "displayEffects config ms (sys (snd (displayWelcome_step config m (out, w)))) =
     displayEffects config (m # ms) (sys w)"
  by (simp add: displayWelcome_step_explicit split: prod.splits sum.splits)

lemma displayWelcome_loop_sys:
  "sys (snd (displayWelcome_loop config ms (out, w))) = displayEffects config ms (sys w)"
proof (induction ms arbitrary: out w)
  case Nil
  show ?case by simp
next
  case (Cons m ms)
  obtain o1 w1 where s: "displayWelcome_step config m (out, w) = (o1, w1)"
    by (cases "displayWelcome_step config m (out, w)")
  have "displayEffects config ms (sys w1) = displayEffects config (m # ms) (sys w)"
    using displayWelcome_step_sys [of config ms m out w] by (simp only: s snd_conv)
  then show ?case using Cons.IH [of o1 w1] by (simp add: s)
qed

lemma displayWelcome_sys:
  assumes "getEnabledModules reg config = Inr ms"
  shows "sys (snd (displayWelcome reg config w)) = displayEffects config ms (sys w)"
proof -
  let ?w1 = "startTimer ''display_welcome'' w"
  obtain o1 w2 where l: "displayWelcome_loop config ms ([[]], ?w1) = (o1, w2)"
    by (cases "displayWelcome_loop config ms ([[]], ?w1)")
  have c: "sys w2 = displayEffects config ms (sys w)"
    using displayWelcome_loop_sys [of config ms "[[]]" ?w1] l by (simp add: startTimer_def)
  show ?thesis
    using c by (simp add: displayWelcome_def assms l endTimer_def Let_def split: option.splits)
qed

text \<open>
  Claim C2. Take the program's registry, whatever the four modules' methods do, and a
  configuration whose \<open>enabledModules\<close> is an array; let \<open>ms\<close> be the enabled
  modules. Then \<open>setupModules\<close> returns normally after calling the setup of every
  module of \<open>ms\<close>, in order, whichever of them throw, and the system it leaves is
  the one these setups leave, each run on the system the earlier ones left: a setup that
  throws is logged and the next module's setup runs all the same. \<open>displayWelcome\<close>,
  run after it, returns normally with the text joined from the collected fragments, after
  calling the display of every module of \<open>ms\<close>, in order, also of those whose setup
  threw, and leaves the system these displays leave; and a module whose display throws
  adds nothing to the collected fragments.
\<close>

theorem module_failures_are_isolated:
  assumes "getProp config ''enabledModules'' = Inr (JArr xs)"
    and "reg = moduleRegistry gh we li sy"
    and "ms = filterDefined (map (modules_get reg) xs)"
    and "w1 = snd (setupModules reg config w)"
  shows "getEnabledModules reg config = Inr ms \<and>
         fst (setupModules reg config w) = Inr () \<and>
         calls w1 = calls w @ map (\<lambda>m. SetupCall (name m)) ms \<and>
         sys w1 = setupEffects config ms (sys w) \<and>
         fst (displayWelcome reg config w1) =
           Inr (join newline ([] # collectedFragments config ms (sys w1) @ [[]])) \<and>
         calls (snd (displayWelcome reg config w1)) = calls w1 @ map (\<lambda>m. DisplayCall (name m)) ms \<and>
         sys (snd (displayWelcome reg config w1)) = displayEffects config ms (sys w1) \<and>
         (\<forall>m rest s e s'. setup_method m config s = (Inl e, s') \<longrightarrow>
            setupEffects config (m # rest) s =
              setupEffects config rest
                (logger_error (''Failed to setup module '' @ name m @ '': '' @ errorToString e) s')) \<and>
         (\<forall>m rest s u s'. setup_method m config s = (Inr u, s') \<longrightarrow>
            setupEffects config (m # rest) s = setupEffects config rest s') \<and>
         (\<forall>m rest s e s'. display_method m config s = (Inl e, s') \<longrightarrow>
            collectedFragments config (m # rest) s =
              collectedFragments config rest
                (logger_error (''Failed to display module '' @ name m @ '': '' @ errorToString e) s'))"
proof -
  have e: "getEnabledModules reg config = Inr ms"
    using assms(1,3) by (simp add: getEnabledModules_array)
  have n: "\<forall>m \<in> set ms. name m \<noteq> ''welcome''"
  proof
    fix m assume "m \<in> set ms"
    then have "name m \<in> {''github'', ''weather'', ''linearStalled'', ''system''}"
      using moduleRegistry_enabled_names [of gh we li sy config ms m] e assms(2) by simp
    then show "name m \<noteq> ''welcome''" by auto
  qed
  show ?thesis
    using e setupModules_result [OF e, of w] displayWelcome_result [OF e n, of w1] assms(4)
      setupModules_sys [OF e, of w] displayWelcome_sys [OF e, of w1]
    by simp
qed

theorem module_failures_are_isolated_witness:
  "getProp (configWith [''github'', ''system'']) ''enabledModules'' = Inr (JArr [JStr ''github'', JStr ''system'']) \<and>
   fst (setupModules (moduleRegistry failingMethods (okMethods ''W'') (okMethods ''L'') (countingMethods ''S'' 10))
          (configWith [''github'', ''system'']) exampleWorld) = Inr () \<and>
   calls (snd (setupModules (moduleRegistry failingMethods (okMethods ''W'') (okMethods ''L'') (countingMethods ''S'' 10))
          (configWith [''github'', ''system'']) exampleWorld)) = [SetupCall ''github'', SetupCall ''system''] \<and>
   ext (sys (snd (setupModules (moduleRegistry failingMethods (okMethods ''W'') (okMethods ''L'') (countingMethods ''S'' 10))
          (configWith [''github'', ''system'']) exampleWorld))) = 10 \<and>
   logs (sys (snd (setupModules (moduleRegistry failingMethods (okMethods ''W'') (okMethods ''L'') (countingMethods ''S'' 10))
          (configWith [''github'', ''system'']) exampleWorld))) =
     [(ERROR, ''Failed to setup module github: Error: setup failed'')] \<and>
   fst (displayWelcome (moduleRegistry failingMethods (okMethods ''W'') (okMethods ''L'') (countingMethods ''S'' 10))
          (configWith [''github'', ''system''])
          (snd (setupModules (moduleRegistry failingMethods (okMethods ''W'') (okMethods ''L'') (countingMethods ''S'' 10))
             (configWith [''github'', ''system'']) exampleWorld))) = Inr (newline @ ''S'' @ newline)"
proof -
  have a: "getProp (configWith [''github'', ''system'']) ''enabledModules'' = Inr (JArr [JStr ''github'', JStr ''system''])"
    by (simp add: configWith_def)
  have f: "collectedFragments (configWith [''github'', ''system''])
             [githubModule failingMethods, systemModule (countingMethods ''S'' 10)] s = [''S'']" for s
    by (simp add: githubModule_def systemModule_def failingMethods_def countingMethods_def)
  have g: "setupEffects (configWith [''github'', ''system''])
             [githubModule failingMethods, systemModule (countingMethods ''S'' 10)] (sys exampleWorld) =
           (sys exampleWorld)\<lparr>logs := [(ERROR, ''Failed to setup module github: Error: setup failed'')],
                               ext := 10\<rparr>"
    by (simp add: githubModule_def systemModule_def failingMethods_def countingMethods_def
                  logger_error_def exampleWorld_def cacheWorld_def)
  have m: "filterDefined (map (modules_get (moduleRegistry failingMethods (okMethods ''W'') (okMethods ''L'') (countingMethods ''S'' 10)))
             [JStr ''github'', JStr ''system'']) = [githubModule failingMethods, systemModule (countingMethods ''S'' 10)]"
    by (simp add: modules_get_def moduleRegistry_modules)
  note t = module_failures_are_isolated [OF a refl refl refl, where w = exampleWorld
             and gh = failingMethods and we = "okMethods ''W''" and li = "okMethods ''L''"
             and sy = "countingMethods ''S'' 10", unfolded m f g]
  have c: "calls exampleWorld = []" by (simp add: exampleWorld_def)
  have n: "name (githubModule failingMethods) = ''github''" "name (systemModule (countingMethods ''S'' 10)) = ''system''"
    by (simp_all add: githubModule_def systemModule_def)
  from t a c n show ?thesis by (elim conjE) (simp (no_asm_simp))
qed

text \<open>
  The statement is about the program's registry. A registry with a module named
  \<open>welcome\<close> behaves otherwise: the module's timer \<open>display_welcome\<close> is the timer of
  the whole pass, which is gone when \<open>displayWelcome\<close> ends it, so the call throws.
\<close>

lemma displayWelcome_module_named_welcome:
  "fst (displayWelcome (register (exampleModule ''welcome'') emptyRegistry)
          (configWith [''welcome'']) exampleWorld) =
     Inl (Error (''Timer '' @ [CHR 0x22] @ ''display_welcome'' @ [CHR 0x22] @ '' was not started''))"
  by (simp add: displayWelcome_def displayWelcome_step_def getEnabledModules_def modules_get_def
                register_def emptyRegistry_def configWith_def exampleModule_def okMethods_def
                startTimer_def endTimer_def exampleWorld_def Let_def)

subsection \<open>The composed text\<close>

lemma join_snoc_empty: "fs \<noteq> [] \<Longrightarrow> join sep (fs @ [[]]) = join sep fs @ sep"
proof (induction fs)
  case Nil
  then show ?case by simp
next
  case (Cons f fs)
  show ?case
  proof (cases fs)
    case Nil
    then show ?thesis by simp
  next
    case (Cons g gs)
    with Cons.IH show ?thesis by simp
  qed
qed

lemma join_framed: "fs \<noteq> [] \<Longrightarrow> join sep ([] # fs @ [[]]) = sep @ join sep fs @ sep"
  by (cases fs) (simp_all add: join_snoc_empty [of "_ # _", simplified])

lemma join_nonempty: "x \<noteq> [] \<Longrightarrow> join sep (x # xs) \<noteq> []"
  by (cases xs) simp_all

lemma colorBoldText_nonempty: "t \<noteq> [] \<Longrightarrow> colorBoldText level color t \<noteq> []"
  by (simp add: colorBoldText_def chalk_apply_def)

lemma system_display_nonempty:
  "system_display level probe config w = (Inr s, w') \<Longrightarrow> s \<noteq> []"
  by (auto simp: system_display_def Let_def colorBoldText_nonempty
           split: sum.splits prod.splits if_splits)

lemma moduleRegistry_only_system:
  "filterDefined [modules_get (moduleRegistry gh we li sy) (JStr ''system'')] = [systemModule sy]"
  by (simp add: modules_get_def moduleRegistry_modules)

text \<open>
  Claim C7. For the program's registry and a configuration whose \<open>enabledModules\<close> is
  an array, \<open>displayWelcome\<close> returns the list made of an empty line, the non-empty
  outputs of the enabled modules' displays in order, and an empty line, joined by single
  newlines; with at least one fragment this is a newline, the fragments joined by
  newlines, and a newline. In particular, when \<open>system\<close> is the only enabled module and
  its display returns the text \<open>s\<close>, \<open>displayWelcome\<close> returns a newline, \<open>s\<close> and a
  newline: the system module's text starts with its header line and is never empty. The
  same holds with any other methods in the system module's place whose display returns a
  non-empty text.
\<close>

theorem displayWelcome_joins_fragments:
  assumes "getProp config ''enabledModules'' = Inr (JArr xs)"
    and "reg = moduleRegistry gh we li sy"
    and "ms = filterDefined (map (modules_get reg) xs)"
  shows "fst (displayWelcome reg config w) =
           Inr (join newline ([] # collectedFragments config ms (sys w) @ [[]])) \<and>
         (collectedFragments config ms (sys w) \<noteq> [] \<longrightarrow>
            fst (displayWelcome reg config w) =
              Inr (newline @ join newline (collectedFragments config ms (sys w)) @ newline)) \<and>
         (xs = [JStr ''system''] \<and> sy = system_methods level probe \<and>
          system_display level probe config (sys w) = (Inr s, s') \<longrightarrow>
            fst (displayWelcome reg config w) = Inr (newline @ s @ newline)) \<and>
         (xs = [JStr ''system''] \<and> snd sy config (sys w) = (Inr t, s') \<and> t \<noteq> [] \<longrightarrow>
            fst (displayWelcome reg config w) = Inr (newline @ t @ newline))"
proof -
  have e: "getEnabledModules reg config = Inr ms"
    using assms(1,3) by (simp add: getEnabledModules_array)
  have n: "\<forall>m \<in> set ms. name m \<noteq> ''welcome''"
  proof
    fix m assume "m \<in> set ms"
    then have "name m \<in> {''github'', ''weather'', ''linearStalled'', ''system''}"
      using moduleRegistry_enabled_names [of gh we li sy config ms m] e assms(2) by simp
    then show "name m \<noteq> ''welcome''" by auto
  qed
  have a: "fst (displayWelcome reg config w) =
           Inr (join newline ([] # collectedFragments config ms (sys w) @ [[]]))"
    using displayWelcome_result [OF e n, of w] by simp
  have b: "fst (displayWelcome reg config w) =
              Inr (newline @ join newline (collectedFragments config ms (sys w)) @ newline)"
    if "collectedFragments config ms (sys w) \<noteq> []"
    using a join_framed [OF that, of newline] by simp
  have c: "fst (displayWelcome reg config w) = Inr (newline @ s @ newline)"
    if "xs = [JStr ''system'']" and "sy = system_methods level probe"
      and d: "system_display level probe config (sys w) = (Inr s, s')"
  proof -
    have "ms = [systemModule sy]"
      using assms(2,3) that(1) by (simp add: moduleRegistry_only_system)
    moreover have "s \<noteq> []" by (rule system_display_nonempty [OF d])
    ultimately have "collectedFragments config ms (sys w) = [s]"
      using d that(2) by (simp add: systemModule_def system_methods_def)
    then show ?thesis using a by simp
  qed
  have d: "fst (displayWelcome reg config w) = Inr (newline @ t @ newline)"
    if "xs = [JStr ''system'']" and "snd sy config (sys w) = (Inr t, s')" and "t \<noteq> []"
  proof -
    have "ms = [systemModule sy]"
      using assms(2,3) that(1) by (simp add: moduleRegistry_only_system)
    then have "collectedFragments config ms (sys w) = [t]"
      using that(2,3) by (simp add: systemModule_def)
    then show ?thesis using a by simp
  qed
  from a b c d show ?thesis by blast
qed

theorem displayWelcome_joins_fragments_witness:
  "getProp systemOnlyConfig ''enabledModules'' = Inr (JArr [JStr ''system'']) \<and>
   system_display 1 exampleProbe systemOnlyConfig (sys exampleWorld) =
     (Inr (colorBoldText 1 yellow ''System Information:'' @ newline @
           colorText 1 cyan ''Load'' @ '': 0.10, 0.20, 0.30''), sys exampleWorld) \<and>
   fst (displayWelcome
          (moduleRegistry failingMethods failingMethods failingMethods (system_methods 1 exampleProbe))
          systemOnlyConfig exampleWorld) =
     Inr (newline @ (colorBoldText 1 yellow ''System Information:'' @ newline @
           colorText 1 cyan ''Load'' @ '': 0.10, 0.20, 0.30'') @ newline)"
proof -
  have a: "getProp systemOnlyConfig ''enabledModules'' = Inr (JArr [JStr ''system''])"
    by (simp add: systemOnlyConfig_def)
  have d: "system_display 1 exampleProbe systemOnlyConfig (sys exampleWorld) =
     (Inr (colorBoldText 1 yellow ''System Information:'' @ newline @
           colorText 1 cyan ''Load'' @ '': 0.10, 0.20, 0.30''), sys exampleWorld)"
    by (simp add: system_display_def systemOnlyConfig_def exampleProbe_def)
  note t = displayWelcome_joins_fragments [OF a refl refl, where w = exampleWorld
             and gh = failingMethods and we = failingMethods and li = failingMethods
             and sy = "system_methods 1 exampleProbe" and level = 1 and probe = exampleProbe
             and s = "colorBoldText 1 yellow ''System Information:'' @ newline @
                      colorText 1 cyan ''Load'' @ '': 0.10, 0.20, 0.30''"
             and s' = "sys exampleWorld"]
  from t a d show ?thesis by blast
qed

subsection \<open>The greeting module\<close>

text \<open>
  Claim C10. Whatever the configuration, \<open>getEnabledModules\<close> on the program's registry
  yields no module named \<open>greeting\<close>: the registry holds the modules \<open>github\<close>,
  \<open>weather\<close>, \<open>linearStalled\<close> and \<open>system\<close>, and none under the name \<open>greeting\<close>.
  The default list of enabled modules names \<open>greeting\<close>; its enabled modules are the
  other four. Neither \<open>setupModules\<close> nor \<open>displayWelcome\<close> ever calls a method of a
  module named \<open>greeting\<close>.
\<close>

theorem greeting_never_enabled:
  "(\<forall>config ms. getEnabledModules (moduleRegistry gh we li sy) config = Inr ms \<longrightarrow>
      (\<forall>m \<in> set ms. name m \<noteq> ''greeting'')) \<and>
   map name (getAllModules (moduleRegistry gh we li sy)) =
     [''github'', ''weather'', ''linearStalled'', ''system''] \<and>
   getModule (moduleRegistry gh we li sy) ''greeting'' = None \<and>
   (\<exists>before after. getProp (defaultConfig e) ''enabledModules'' =
      Inr (JArr (before @ [JStr ''greeting''] @ after))) \<and>
   map name (filterDefined (map (modules_get (moduleRegistry gh we li sy))
       [JStr ''system'', JStr ''greeting'', JStr ''weather'', JStr ''github'', JStr ''linearStalled'']))
     = [''system'', ''weather'', ''github'', ''linearStalled''] \<and>
   (\<forall>config w. \<exists>cs. calls (snd (setupModules (moduleRegistry gh we li sy) config w)) = calls w @ cs \<and>
      SetupCall ''greeting'' \<notin> set cs) \<and>
   (\<forall>config w. \<exists>cs. calls (snd (displayWelcome (moduleRegistry gh we li sy) config w)) = calls w @ cs \<and>
      DisplayCall ''greeting'' \<notin> set cs)"
proof -
  let ?reg = "moduleRegistry gh we li sy"
  have g: "name m \<noteq> ''greeting''" if "getEnabledModules ?reg config = Inr ms" and "m \<in> set ms"
    for config ms m
    using moduleRegistry_enabled_names [OF that] by auto
  have a: "map name (getAllModules ?reg) = [''github'', ''weather'', ''linearStalled'', ''system'']"
    by (simp add: getAllModules_def moduleRegistry_modules githubModule_def weatherModule_def
                  linearStalledModule_def systemModule_def)
  have b: "getModule ?reg ''greeting'' = None"
    by (simp add: getModule_def moduleRegistry_modules)
  have c: "getProp (defaultConfig e) ''enabledModules'' =
      Inr (JArr ([JStr ''system''] @ [JStr ''greeting''] @ [JStr ''weather'', JStr ''github'', JStr ''linearStalled'']))"
    by (simp add: defaultConfig_def)
  have d: "map name (filterDefined (map (modules_get ?reg)
       [JStr ''system'', JStr ''greeting'', JStr ''weather'', JStr ''github'', JStr ''linearStalled'']))
     = [''system'', ''weather'', ''github'', ''linearStalled'']"
    by (simp add: modules_get_def moduleRegistry_modules githubModule_def weatherModule_def
                  linearStalledModule_def systemModule_def)
  have s: "\<exists>cs. calls (snd (setupModules ?reg config w)) = calls w @ cs \<and> SetupCall ''greeting'' \<notin> set cs"
    for config w
  proof (cases "getEnabledModules ?reg config")
    case (Inl err)
    then show ?thesis by (simp add: setupModules_def)
  next
    case (Inr ms)
    have "SetupCall ''greeting'' \<notin> set (map (\<lambda>m. SetupCall (name m)) ms)"
    proof
      assume "SetupCall ''greeting'' \<in> set (map (\<lambda>m. SetupCall (name m)) ms)"
      then obtain m where "m \<in> set ms" and "name m = ''greeting''" by auto
      with g [OF Inr] show False by blast
    qed
    then show ?thesis using setupModules_result [OF Inr, of w] by blast
  qed
  have t: "\<exists>cs. calls (snd (displayWelcome ?reg config w)) = calls w @ cs \<and> DisplayCall ''greeting'' \<notin> set cs"
    for config w
  proof (cases "getEnabledModules ?reg config")
    case (Inl err)
    then show ?thesis by (simp add: displayWelcome_def)
  next
    case (Inr ms)
    have "DisplayCall ''greeting'' \<notin> set (map (\<lambda>m. DisplayCall (name m)) ms)"
    proof
      assume "DisplayCall ''greeting'' \<in> set (map (\<lambda>m. DisplayCall (name m)) ms)"
      then obtain m where "m \<in> set ms" and "name m = ''greeting''" by auto
      with g [OF Inr] show False by blast
    qed
    then show ?thesis using displayWelcome_calls [OF Inr, of w] by blast
  qed
  from g a b c d s t show ?thesis by blast
qed

theorem greeting_never_enabled_witness:
  "getEnabledModules (moduleRegistry failingMethods failingMethods failingMethods failingMethods)
     (defaultConfig Map.empty) =
     Inr [systemModule failingMethods, weatherModule failingMethods, githubModule failingMethods,
          linearStalledModule failingMethods] \<and>
   name (systemModule failingMethods) \<noteq> ''greeting'' \<and>
   name (weatherModule failingMethods) \<noteq> ''greeting'' \<and>
   name (githubModule failingMethods) \<noteq> ''greeting'' \<and>
   name (linearStalledModule failingMethods) \<noteq> ''greeting''"
proof -
  have a: "getEnabledModules (moduleRegistry failingMethods failingMethods failingMethods failingMethods)
     (defaultConfig Map.empty) =
     Inr [systemModule failingMethods, weatherModule failingMethods, githubModule failingMethods,
          linearStalledModule failingMethods]"
    by (simp add: getEnabledModules_def defaultConfig_def modules_get_def moduleRegistry_modules)
  from greeting_never_enabled [where gh = failingMethods and we = failingMethods
         and li = failingMethods and sy = failingMethods] a
  have "\<forall>m \<in> set [systemModule failingMethods, weatherModule failingMethods,
           githubModule failingMethods, linearStalledModule failingMethods]. name m \<noteq> ''greeting''"
    by blast
  then show ?thesis using a by simp
qed

section \<open>Properties of loading the configuration\<close>

lemma map_of_fold_update:
  "map_of (fold (\<lambda>p. AList.update (fst p) (snd p)) ps qs) = map_of qs ++ map_of (rev ps)"
proof (induction ps arbitrary: qs)
  case Nil
  show ?case by simp
next
  case (Cons p ps)
  show ?case by (simp add: Cons.IH update_conv' map_add_def fun_eq_iff split: option.splits)
qed

lemma getProp_objectSpread:
  "getProp (objectSpread a b) k =
     Inr (case map_of (rev (ownProperties b)) k of
            Some v \<Rightarrow> v
          | None \<Rightarrow> (case map_of (rev (ownProperties a)) k of Some v \<Rightarrow> v | None \<Rightarrow> JUndefined))"
  by (simp add: objectSpread_def map_of_fold_update map_add_def split: option.splits)

lemma defaultConfig_props:
  "map_of (rev (ownProperties (defaultConfig e))) k = map_of (ownProperties (defaultConfig e)) k"
  by (auto simp: defaultConfig_def)

lemma getProp_merged:
  "getProp (objectSpread (defaultConfig e) u) k =
     (case map_of (rev (ownProperties u)) k of
        Some v \<Rightarrow> Inr v
      | None \<Rightarrow> getProp (defaultConfig e) k)"
proof -
  have "getProp (defaultConfig e) k =
          Inr (case map_of (ownProperties (defaultConfig e)) k of Some v \<Rightarrow> v | None \<Rightarrow> JUndefined)"
    by (simp add: defaultConfig_def)
  then show ?thesis
    by (simp add: getProp_objectSpread defaultConfig_props split: option.splits)
qed

lemma saveConfig_returns: "fst (saveConfig c w) = Inr () \<and> env (snd (saveConfig c w)) = env w"
  by (auto simp: saveConfig_def fs_writeFile_def logger_error_def split: option.splits prod.splits sum.splits)

lemma loadConfig_try_cases:
  "loadConfig_try w = (r, w') \<Longrightarrow>
   env w' = env w \<and>
   (case r of
      Inl err \<Rightarrow> True
    | Inr cfg \<Rightarrow> \<exists>u. fs_readFile (CONFIG_FILE w) w = Inr (JsonText u) \<and>
                     cfg = objectSpread (defaultConfig (env w)) u)"
  by (auto simp: loadConfig_try_def JSON_parse_def logger_setLevel_def Let_def
           split: sum.splits content.splits)

text \<open>What \<open>loadConfig\<close> returns and the state it leaves, case by case.\<close>

lemma loadConfig_result:
  "loadConfig w =
     (if mkdirDenied w (CONFIG_DIR w) then
        (Inr (defaultConfig (env w)),
         logger_error (''Failed to load/create configuration: '' @
                       errorToString (Error (''EACCES: permission denied, mkdir '' @ CONFIG_DIR w))) w)
      else
        (case fs_readFile (CONFIG_FILE w) w of
           Inr (JsonText u) \<Rightarrow>
             (case persistedProperty u ''display'' of
                Some JNull \<Rightarrow>
                  (Inr (defaultConfig (env w)),
                   logger_info ''Created default configuration file''
                     (snd (saveConfig (defaultConfig (env w)) w)))
              | Some JUndefined \<Rightarrow>
                  (Inr (defaultConfig (env w)),
                   logger_info ''Created default configuration file''
                     (snd (saveConfig (defaultConfig (env w)) w)))
              | Some disp \<Rightarrow>
                  (Inr (objectSpread (defaultConfig (env w)) u),
                   logger_setLevel (case getProp disp ''logLevel'' of Inr l \<Rightarrow> l | Inl e \<Rightarrow> JUndefined) w)
              | None \<Rightarrow>
                  (Inr (objectSpread (defaultConfig (env w)) u), logger_setLevel (JNum 1) w))
         | _ \<Rightarrow>
             (Inr (defaultConfig (env w)),
              logger_info ''Created default configuration file''
                (snd (saveConfig (defaultConfig (env w)) w)))))"
proof -
  have s: "saveConfig c w = (Inr (), snd (saveConfig c w))" for c
    by (auto simp: saveConfig_def split: prod.splits sum.splits)
  have e: "env (snd (saveConfig c w)) = env w" for c
    by (simp add: saveConfig_returns)
  have d: "getProp (defaultConfig (env w)) ''display'' =
             Inr (JObj [(''useEmojis'', JBool True), (''colorTheme'', JStr ''default''), (''logLevel'', JNum 1)])"
    by (simp add: defaultConfig_def)
  show ?thesis
  proof (cases "mkdirDenied w (CONFIG_DIR w)")
    case True
    then show ?thesis by (simp add: loadConfig_def fs_mkdir_def)
  next
    case False
    show ?thesis
    proof (cases "fs_readFile (CONFIG_FILE w) w")
      case (Inl err)
      then show ?thesis
        using False by (simp add: loadConfig_def fs_mkdir_def loadConfig_try_def)
                       (subst s, simp add: e)
    next
      case (Inr c)
      show ?thesis
      proof (cases c)
        case (OtherText t)
        then show ?thesis
          using False Inr by (simp add: loadConfig_def fs_mkdir_def loadConfig_try_def JSON_parse_def)
                             (subst s, simp add: e)
      next
        case (JsonText u)
        show ?thesis
        proof (cases "persistedProperty u ''display''")
          case None
          then show ?thesis
            using False Inr JsonText
            by (simp add: loadConfig_def fs_mkdir_def loadConfig_try_def JSON_parse_def
                          getProp_merged persistedProperty_def d)
        next
          case (Some disp)
          then show ?thesis
            using False Inr JsonText
            by (cases disp)
               (simp_all add: loadConfig_def fs_mkdir_def loadConfig_try_def JSON_parse_def
                              getProp_merged persistedProperty_def,
                (subst s, simp add: e)+)
        qed
      qed
    qed
  qed
qed

text \<open>
  Claim C8, as stated, fails. Nothing validates a persisted value: \<open>loadConfig\<close>
  takes what \<open>JSON.parse\<close> returns as a partial configuration, as does
  \<open>loadCurrentConfig\<close> of the configuration command, and the file counts as invalid
  only when it cannot be read or parsed. A file whose \<open>enabledModules\<close> is a string,
  or whose \<open>display.logLevel\<close> is a string, gives a configuration that holds these
  values, not the defaults.
\<close>

theorem loadConfig_invalid_value_counterexample:
  "getPath (loadedConfig (configWorld (Some (JsonText (JObj [(''enabledModules'', JStr ''system'')])))))
     [''enabledModules''] = Inr (JStr ''system'') \<and>
   getPath (defaultConfig Map.empty) [''enabledModules''] =
     Inr (JArr [JStr ''system'', JStr ''greeting'', JStr ''weather'', JStr ''github'', JStr ''linearStalled'']) \<and>
   getPath (loadedConfig (configWorld (Some (JsonText (JObj [(''display'',
       JObj [(''useEmojis'', JBool True), (''colorTheme'', JStr ''default''), (''logLevel'', JStr ''verbose'')])])))))
     [''display'', ''logLevel''] = Inr (JStr ''verbose'') \<and>
   getPath (defaultConfig Map.empty) [''display'', ''logLevel''] = Inr (JNum 1)"
  by (simp add: loadedConfig_def loadConfig_def loadConfig_try_def fs_mkdir_def fs_readFile_def
                JSON_parse_def objectSpread_def defaultConfig_def configWorld_def CONFIG_FILE_def
                CONFIG_DIR_def path_join_def logger_setLevel_def)

text \<open>
  Fields missing from a persisted section are another matter. The merge
  \<open>{ ...defaultConfig, ...userConfig }\<close> goes one level deep (the source notes that a
  deep merge would be better), so such a field is undefined in the result, where
  \<open>loadCurrentConfig\<close> merges each section with its default. The statement below says
  nothing about these fields.
\<close>

lemma loadConfig_nested_field_example:
  "getPath (loadedConfig (configWorld (Some (JsonText (JObj [(''weather'', JObj [(''city'', JStr ''Paris'')])])))))
     [''weather'', ''units''] = Inr JUndefined \<and>
   getPath (defaultConfig Map.empty) [''weather'', ''units''] = Inr (JStr ''imperial'')"
  by (simp add: loadedConfig_def loadConfig_def loadConfig_try_def fs_mkdir_def fs_readFile_def
                JSON_parse_def objectSpread_def defaultConfig_def configWorld_def CONFIG_FILE_def
                CONFIG_DIR_def path_join_def logger_setLevel_def)

text \<open>
  Claim C8, amended. \<open>loadConfig\<close> never fails. It returns the default configuration
  when the directory cannot be created, when the file is absent, unreadable or not JSON,
  and when the file's \<open>display\<close> is null. In every other case each top-level property
  the file does not have is the default one, and each value the file holds that is not an
  object, at the top level or at any depth inside a section, is in the configuration at
  the same place as it stands, valid or not.
\<close>

theorem loadConfig_defaults_and_persisted_values:
  "\<exists>cfg w'. loadConfig w = (Inr cfg, w') \<and>
     (mkdirDenied w (CONFIG_DIR w) \<or>
      (\<forall>u. fs_readFile (CONFIG_FILE w) w \<noteq> Inr (JsonText u)) \<or>
      (\<exists>u. fs_readFile (CONFIG_FILE w) w = Inr (JsonText u) \<and>
           (persistedProperty u ''display'' = Some JNull \<or>
            persistedProperty u ''display'' = Some JUndefined))
        \<longrightarrow> cfg = defaultConfig (env w)) \<and>
     (\<forall>u. \<not> mkdirDenied w (CONFIG_DIR w) \<and>
          fs_readFile (CONFIG_FILE w) w = Inr (JsonText u) \<and>
          persistedProperty u ''display'' \<noteq> Some JNull \<and>
          persistedProperty u ''display'' \<noteq> Some JUndefined \<longrightarrow>
          (\<forall>k. persistedProperty u k = None \<longrightarrow>
                 getProp cfg k = getProp (defaultConfig (env w)) k) \<and>
          (\<forall>k x ks v. persistedProperty u k = Some x \<and> getPath x ks = Inr v \<and> leafValue v \<longrightarrow>
                 getPath cfg (k # ks) = Inr v))"
proof (cases "mkdirDenied w (CONFIG_DIR w)")
  case True
  then show ?thesis by (simp add: loadConfig_result)
next
  case False
  show ?thesis
  proof (cases "\<exists>u. fs_readFile (CONFIG_FILE w) w = Inr (JsonText u)")
    case n: False
    then have "fst (loadConfig w) = Inr (defaultConfig (env w))"
      using False by (auto simp: loadConfig_result split: sum.splits content.splits)
    then show ?thesis using n False by (cases "loadConfig w") auto
  next
    case True
    then obtain u where u: "fs_readFile (CONFIG_FILE w) w = Inr (JsonText u)" by blast
    show ?thesis
    proof (cases "persistedProperty u ''display'' = Some JNull \<or>
                  persistedProperty u ''display'' = Some JUndefined")
      case d: True
      then have "fst (loadConfig w) = Inr (defaultConfig (env w))"
        using False u by (auto simp: loadConfig_result)
      then show ?thesis using d False u by (cases "loadConfig w") auto
    next
      case d: False
      have "fst (loadConfig w) = Inr (objectSpread (defaultConfig (env w)) u)"
        using False u d by (auto simp: loadConfig_result split: option.splits jsval.splits)
      then obtain w' where l: "loadConfig w = (Inr (objectSpread (defaultConfig (env w)) u), w')"
        by (cases "loadConfig w") auto
      have p: "getProp (objectSpread (defaultConfig (env w)) u) k =
                 (case persistedProperty u k of Some v \<Rightarrow> Inr v
                  | None \<Rightarrow> getProp (defaultConfig (env w)) k)" for k
        by (simp add: getProp_merged persistedProperty_def)
      have a: "persistedProperty u k = None \<Longrightarrow>
                 getProp (objectSpread (defaultConfig (env w)) u) k = getProp (defaultConfig (env w)) k" for k
        by (simp add: p)
      have b: "persistedProperty u k = Some x \<Longrightarrow> getPath x ks = Inr v \<Longrightarrow>
                 getPath (objectSpread (defaultConfig (env w)) u) (k # ks) = Inr v" for k x ks v
        by (simp add: p)
      have c2: "mkdirDenied w (CONFIG_DIR w) \<or>
                (\<forall>u. fs_readFile (CONFIG_FILE w) w \<noteq> Inr (JsonText u)) \<or>
                (\<exists>u. fs_readFile (CONFIG_FILE w) w = Inr (JsonText u) \<and>
                     (persistedProperty u ''display'' = Some JNull \<or>
                      persistedProperty u ''display'' = Some JUndefined))
                \<longrightarrow> objectSpread (defaultConfig (env w)) u = defaultConfig (env w)"
        using False u d by auto
      have c3: "\<forall>u'. \<not> mkdirDenied w (CONFIG_DIR w) \<and>
                  fs_readFile (CONFIG_FILE w) w = Inr (JsonText u') \<and>
                  persistedProperty u' ''display'' \<noteq> Some JNull \<and>
                  persistedProperty u' ''display'' \<noteq> Some JUndefined \<longrightarrow>
                  (\<forall>k. persistedProperty u' k = None \<longrightarrow>
                     getProp (objectSpread (defaultConfig (env w)) u) k = getProp (defaultConfig (env w)) k) \<and>
                  (\<forall>k x ks v. persistedProperty u' k = Some x \<and> getPath x ks = Inr v \<and> leafValue v \<longrightarrow>
                     getPath (objectSpread (defaultConfig (env w)) u) (k # ks) = Inr v)"
      proof (intro allI impI)
        fix u'
        assume h: "\<not> mkdirDenied w (CONFIG_DIR w) \<and>
                  fs_readFile (CONFIG_FILE w) w = Inr (JsonText u') \<and>
                  persistedProperty u' ''display'' \<noteq> Some JNull \<and>
                  persistedProperty u' ''display'' \<noteq> Some JUndefined"
        then have "u' = u" using u by simp
        then show "(\<forall>k. persistedProperty u' k = None \<longrightarrow>
                     getProp (objectSpread (defaultConfig (env w)) u) k = getProp (defaultConfig (env w)) k) \<and>
                  (\<forall>k x ks v. persistedProperty u' k = Some x \<and> getPath x ks = Inr v \<and> leafValue v \<longrightarrow>
                     getPath (objectSpread (defaultConfig (env w)) u) (k # ks) = Inr v)"
          using a b by blast
      qed
      show ?thesis
        by (rule exI [of _ "objectSpread (defaultConfig (env w)) u"], rule exI [of _ w'],
            intro conjI, rule l, rule c2, rule c3)
    qed
  qed
qed

theorem loadConfig_defaults_and_persisted_values_witness:
  "getPath (loadedConfig (configWorld (Some (JsonText (JObj [(''user'', JObj [(''userName'', JStr ''TestUser'')])])))))
     [''user'', ''userName''] = Inr (JStr ''TestUser'') \<and>
   getPath (loadedConfig (configWorld (Some (JsonText (JObj [(''user'', JObj [(''userName'', JStr ''TestUser'')])])))))
     [''weather'', ''units''] = Inr (JStr ''imperial'') \<and>
   loadedConfig (configWorld (Some (JsonText (JObj [(''display'', JNull)])))) = defaultConfig Map.empty \<and>
   loadedConfig (configWorld (Some (OtherText ''{''))) = defaultConfig Map.empty \<and>
   loadedConfig (configWorld None) = defaultConfig Map.empty"
proof -
  let ?u = "JObj [(''user'', JObj [(''userName'', JStr ''TestUser'')])]"
  let ?n = "JObj [(''display'', JNull)]"
  have f: "CONFIG_FILE (configWorld t) = ''/home/u/.config/welcome/config.json''" for t
    by (simp add: CONFIG_FILE_def CONFIG_DIR_def path_join_def configWorld_def)
  have m: "\<not> mkdirDenied (configWorld t) (CONFIG_DIR (configWorld t))" for t
    by (simp add: configWorld_def)
  have e: "env (configWorld t) = Map.empty" for t by (simp add: configWorld_def)
  have r1: "fs_readFile (CONFIG_FILE (configWorld (Some (JsonText v)))) (configWorld (Some (JsonText v)))
              = Inr (JsonText v)" for v
    by (simp add: f fs_readFile_def) (simp add: configWorld_def)
  have r2: "\<forall>u. fs_readFile (CONFIG_FILE (configWorld (Some (OtherText ''{'')))) (configWorld (Some (OtherText ''{'')))
              \<noteq> Inr (JsonText u)"
    by (simp add: f fs_readFile_def) (simp add: configWorld_def)
  have r3: "\<forall>u. fs_readFile (CONFIG_FILE (configWorld None)) (configWorld None) \<noteq> Inr (JsonText u)"
    by (simp add: f fs_readFile_def) (simp add: configWorld_def)
  have p1: "persistedProperty ?u ''display'' \<noteq> Some JNull" "persistedProperty ?u ''display'' \<noteq> Some JUndefined"
       "persistedProperty ?u ''weather'' = None"
       "persistedProperty ?u ''user'' = Some (JObj [(''userName'', JStr ''TestUser'')])"
       "getPath (JObj [(''userName'', JStr ''TestUser'')]) [''userName''] = Inr (JStr ''TestUser'')"
       "leafValue (JStr ''TestUser'')"
    by (simp_all add: persistedProperty_def leafValue_def)
  have p2: "persistedProperty ?n ''display'' = Some JNull"
    by (simp add: persistedProperty_def)
  have w: "getProp (defaultConfig Map.empty) ''weather'' = Inr x \<Longrightarrow> getPath x [''units''] = Inr (JStr ''imperial'')" for x
    by (auto simp: defaultConfig_def)
  have wd: "\<exists>x. getProp (defaultConfig Map.empty) ''weather'' = Inr x"
    by (simp add: defaultConfig_def)
  from loadConfig_defaults_and_persisted_values [of "configWorld (Some (JsonText ?u))"]
  obtain cfg w' where c: "loadConfig (configWorld (Some (JsonText ?u))) = (Inr cfg, w')"
      and j: "\<forall>u. \<not> mkdirDenied (configWorld (Some (JsonText ?u))) (CONFIG_DIR (configWorld (Some (JsonText ?u)))) \<and>
          fs_readFile (CONFIG_FILE (configWorld (Some (JsonText ?u)))) (configWorld (Some (JsonText ?u))) = Inr (JsonText u) \<and>
          persistedProperty u ''display'' \<noteq> Some JNull \<and>
          persistedProperty u ''display'' \<noteq> Some JUndefined \<longrightarrow>
          (\<forall>k. persistedProperty u k = None \<longrightarrow>
                 getProp cfg k = getProp (defaultConfig (env (configWorld (Some (JsonText ?u))))) k) \<and>
          (\<forall>k x ks v. persistedProperty u k = Some x \<and> getPath x ks = Inr v \<and> leafValue v \<longrightarrow>
                 getPath cfg (k # ks) = Inr v)"
    by blast
  note j' = j [rule_format, OF conjI [OF m conjI [OF r1 conjI [OF p1(1) p1(2)]]]]
  have c1: "getProp cfg ''weather'' = getProp (defaultConfig Map.empty) ''weather''"
    using j' [THEN conjunct1, rule_format, OF p1(3)] by (simp only: e)
  have c2: "getPath cfg [''user'', ''userName''] = Inr (JStr ''TestUser'')"
    using j' [THEN conjunct2, rule_format, OF conjI [OF p1(4) conjI [OF p1(5) p1(6)]]] .
  have a1: "getPath (loadedConfig (configWorld (Some (JsonText ?u)))) [''user'', ''userName''] = Inr (JStr ''TestUser'')"
    using c c2 by (simp add: loadedConfig_def)
  have a2: "getPath (loadedConfig (configWorld (Some (JsonText ?u)))) [''weather'', ''units''] = Inr (JStr ''imperial'')"
    using c c1 w wd by (auto simp: loadedConfig_def)
  from loadConfig_defaults_and_persisted_values [of "configWorld (Some (JsonText ?n))"] r1 [of ?n] p2
  have a3: "loadedConfig (configWorld (Some (JsonText ?n))) = defaultConfig Map.empty"
    by (auto simp: loadedConfig_def e)
  from loadConfig_defaults_and_persisted_values [of "configWorld (Some (OtherText ''{''))"] r2
  have a4: "loadedConfig (configWorld (Some (OtherText ''{''))) = defaultConfig Map.empty"
    by (auto simp: loadedConfig_def e)
  from loadConfig_defaults_and_persisted_values [of "configWorld None"] r3
  have a5: "loadedConfig (configWorld None) = defaultConfig Map.empty"
    by (auto simp: loadedConfig_def e)
  from a1 a2 a3 a4 a5 show ?thesis by simp
qed

section \<open>Properties of the entry point\<close>

lemmas init_eval = index_main_def init_def init_try_def console_log_def enabledModules_join_def
  ensureCacheDir_def loadConfig_def loadConfig_try_def saveConfig_def fs_mkdir_def fs_readFile_def
  fs_writeFile_def JSON_stringify_def JSON_parse_def objectSpread_def
  CONFIG_FILE_def CONFIG_DIR_def CACHE_DIR_def path_join_def logger_setLevel_def logger_info_def
  logger_error_def getEnabledModules_def modules_get_def moduleRegistry_modules
  githubModule_def weatherModule_def linearStalledModule_def systemModule_def
  setupModules_def setupModules_step_def displayWelcome_def displayWelcome_step_def
  startTimer_def endTimer_def Let_def exampleWorld_def exampleRegistry_def okMethods_def cacheWorld_def

lemma moduleRegistry_no_welcome:
  assumes "getEnabledModules (moduleRegistry gh we li sy) config = Inr ms"
  shows "\<forall>m \<in> set ms. name m \<noteq> ''welcome''"
proof
  fix m assume "m \<in> set ms"
  then have "name m \<in> {''github'', ''weather'', ''linearStalled'', ''system''}"
    by (rule moduleRegistry_enabled_names [OF assms])
  then show "name m \<noteq> ''welcome''" by auto
qed

lemma init_run_calls:
  assumes "loadConfig (snd (ensureCacheDir (sys w))) = (Inr config, s2)"
    and "getProp config ''enabledModules'' = Inr (JArr xs)"
    and "reg = moduleRegistry gh we li sy"
    and "ms = filterDefined (map (modules_get reg) xs)"
  shows "calls (init reg w) =
           calls w @ map (\<lambda>m. SetupCall (name m)) ms @ map (\<lambda>m. DisplayCall (name m)) ms"
proof -
  let ?w2 = "w\<lparr>sys := logger_setLevel (JNum 2) s2\<rparr>"
  obtain s1 where c: "ensureCacheDir (sys w) = (Inr (), s1)"
    using ensureCacheDir_frame [of "sys w"] by blast
  have l: "loadConfig s1 = (Inr config, s2)" using assms(1) by (simp add: c)
  have j: "enabledModules_join config = Inr ()"
    by (simp add: enabledModules_join_def assms(2))
  have e: "getEnabledModules reg config = Inr ms"
    using assms(2,4) by (simp add: getEnabledModules_array)
  have n: "\<forall>m \<in> set ms. name m \<noteq> ''welcome''"
    using moduleRegistry_no_welcome [of gh we li sy config ms] e assms(3) by simp
  obtain w3 where s: "setupModules reg config ?w2 = (Inr (), w3)"
    and s': "calls w3 = calls w @ map (\<lambda>m. SetupCall (name m)) ms"
    using setupModules_result [OF e, of ?w2] by (cases "setupModules reg config ?w2") auto
  obtain msg w4 where d: "displayWelcome reg config w3 = (Inr msg, w4)"
    and k: "calls w4 = calls w3 @ map (\<lambda>m. DisplayCall (name m)) ms"
    using displayWelcome_result [OF e n, of w3] by (cases "displayWelcome reg config w3") auto
  have "init_try reg w = (Inr (), w4\<lparr>sys := console_log msg (sys w4)\<rparr>)"
    by (simp add: init_try_def c l j e s d)
  then show ?thesis by (simp add: init_def k s')
qed

text \<open>
  Claim C9 does not hold of the program as it is started (\<open>node dist/index.js\<close>, where
  \<open>require.main === module\<close>): both calls of \<open>init\<close> run, so the system module's
  setup and its display are each called twice in the one process. When the file is only
  imported, \<open>init\<close> runs once: one setup call, then one display call.
\<close>

theorem index_main_runs_init_twice:
  "length (filter (\<lambda>c. c = SetupCall ''system'')
             (calls (index_main True exampleRegistry configuredWorld))) = 2 \<and>
   length (filter (\<lambda>c. c = DisplayCall ''system'')
             (calls (index_main True exampleRegistry configuredWorld))) = 2 \<and>
   calls (index_main False exampleRegistry configuredWorld) =
     [SetupCall ''system'', DisplayCall ''system'']"
  by (simp add: init_eval defaultConfig_def configuredWorld_def)

end
